theory Spec2Isabelle
  imports Complex_Main
begin

section \<open>The grammar engine of \<open>LSystem\<close> (Anglerandom.py)\<close>

text \<open>
  The rule set is a Python dict from one-character strings to replacement strings.
  \<open>replace\<close> looks one character up and falls back to the character itself
  (\<open>self.rules.get(char, char)\<close>); \<open>replaceProcess\<close> joins the replacements of
  all characters of a string, left to right.
\<close>

type_synonym rules = "char \<rightharpoonup> string"

definition replace :: "rules \<Rightarrow> char \<Rightarrow> string" where
  "replace rules c = (case rules c of None \<Rightarrow> [c] | Some s \<Rightarrow> s)"

definition replaceProcess :: "rules \<Rightarrow> string \<Rightarrow> string" where
  "replaceProcess rules oldStr = concat (map (replace rules) oldStr)"

text \<open>
  \<open>generate\<close>: the loop \<open>for i in range(self.numIters)\<close> carries \<open>oldStr\<close> and
  appends each new string to \<open>self.resultStrs\<close>, which \<open>__init__\<close> has set to
  \<open>[self.startStr]\<close>. \<open>numIters\<close> is a Python integer; \<open>range\<close> of a negative
  number is empty, which is \<open>nat numIters = 0\<close> rounds of the loop.
\<close>

fun generate_for :: "rules \<Rightarrow> nat \<Rightarrow> string \<Rightarrow> string list \<Rightarrow> string list" where
  "generate_for rules 0 oldStr resultStrs = resultStrs"
| "generate_for rules (Suc k) oldStr resultStrs =
     (let newStr = replaceProcess rules oldStr
      in generate_for rules k newStr (resultStrs @ [newStr]))"

definition generate :: "rules \<Rightarrow> int \<Rightarrow> string \<Rightarrow> string list" where
  "generate rules numIters startStr = generate_for rules (nat numIters) startStr [startStr]"

section \<open>Vectors, rotations and the random source\<close>

text \<open>
  \<open>mathutils.Vector\<close> with three components. Python floats are modelled as reals:
  rounding, overflow to \<open>inf\<close> and \<open>nan\<close> are outside the model. \<open>location + direction * step\<close>
  is \<open>vadd location (smul direction step)\<close>.
\<close>

datatype Vector = Vector real real real

fun vadd :: "Vector \<Rightarrow> Vector \<Rightarrow> Vector" where
  "vadd (Vector a b c) (Vector x y z) = Vector (a + x) (b + y) (c + z)"

fun smul :: "Vector \<Rightarrow> real \<Rightarrow> Vector" where
  "smul (Vector x y z) k = Vector (x * k) (y * k) (z * k)"

text \<open>\<open>math.radians\<close>.\<close>

definition radians :: "real \<Rightarrow> real" where
  "radians x = x * pi / 180"

text \<open>
  \<open>mathutils.Euler((ex, ey, ez), 'XYZ')\<close> and \<open>Vector.rotate\<close> belong to Blender's
  library, not to this repository. They are taken with their documented meaning: the
  Euler triple stands for the rotation about the X axis by \<open>ex\<close>, then about the Y axis
  by \<open>ey\<close>, then about the Z axis by \<open>ez\<close> (fixed world axes, right-handed, counter
  clockwise for a positive angle), and \<open>rotate\<close> applies that rotation to the vector.
\<close>

type_synonym Euler = "real \<times> real \<times> real"

fun rot_x :: "real \<Rightarrow> Vector \<Rightarrow> Vector" where
  "rot_x a (Vector x y z) = Vector x (cos a * y - sin a * z) (sin a * y + cos a * z)"

fun rot_y :: "real \<Rightarrow> Vector \<Rightarrow> Vector" where
  "rot_y a (Vector x y z) = Vector (cos a * x + sin a * z) y (cos a * z - sin a * x)"

fun rot_z :: "real \<Rightarrow> Vector \<Rightarrow> Vector" where
  "rot_z a (Vector x y z) = Vector (cos a * x - sin a * y) (sin a * x + cos a * y) z"

fun rotate :: "Euler \<Rightarrow> Vector \<Rightarrow> Vector" where
  "rotate (ex, ey, ez) v = rot_z ez (rot_y ey (rot_x ex v))"

text \<open>
  The module \<open>random\<close> is one global generator. Its state is modelled as the stream of
  the values that \<open>random.random()\<close> is still going to return; a draw takes the first
  and leaves the rest. \<open>random.uniform(a, b)\<close> is \<open>a + (b - a) * random()\<close>.
\<close>

type_synonym rng = "nat \<Rightarrow> real"

definition uniform :: "real \<Rightarrow> real \<Rightarrow> rng \<Rightarrow> real \<times> rng" where
  "uniform a b r = (a + (b - a) * r 0, \<lambda>n. r (Suc n))"

section \<open>Parsing one instruction: \<open>extract_value\<close>\<close>

datatype py_error = IndexError | ValueError

text \<open>
  The regular expression of \<open>extract_value\<close>,
  \<^verbatim>\<open>([A-Za-z\+\-\&\^<>\|])\(([\d\.]+)(?:,([\d\.]+))?\)\<close>, matched by \<open>re.match\<close> at
  the start of the instruction (a prefix match). \<open>re_match\<close> returns the groups 1, 2
  and 3. Both number groups are maximal runs of digits and dots, since the character that
  has to follow them (a comma or the closing parenthesis) is neither. Characters are
  bytes here, so \<^verbatim>\<open>\d\<close> is \<open>0 .. 9\<close>.
\<close>

definition symbol_char :: "char \<Rightarrow> bool" where
  "symbol_char c =
     (c \<in> set ''ABCDEFGHIJKLMNOPQRSTUVWXYZabcdefghijklmnopqrstuvwxyz+-&^<>|'')"

definition digit :: "char \<Rightarrow> bool" where
  "digit c = (c \<in> set ''0123456789'')"

definition digit_or_dot :: "char \<Rightarrow> bool" where
  "digit_or_dot c = (digit c \<or> c = CHR ''.'')"

fun re_match :: "string \<Rightarrow> (string \<times> string \<times> string option) option" where
  "re_match (c # p # rest) =
     (if symbol_char c \<and> p = CHR ''('' \<and> takeWhile digit_or_dot rest \<noteq> [] then
        (case dropWhile digit_or_dot rest of
           [] \<Rightarrow> None
         | x # rest' \<Rightarrow>
             if x = CHR '')'' then Some ([c], takeWhile digit_or_dot rest, None)
             else if x = CHR '','' \<and> takeWhile digit_or_dot rest' \<noteq> [] then
               (case dropWhile digit_or_dot rest' of
                  [] \<Rightarrow> None
                | y # _ \<Rightarrow>
                    if y = CHR '')''
                    then Some ([c], takeWhile digit_or_dot rest,
                               Some (takeWhile digit_or_dot rest'))
                    else None)
             else None)
      else None)"
| "re_match _ = None"

text \<open>
  \<open>float\<close> on a string of digits and dots (all that the groups of the regular expression
  can hold): the decimal value when there is at most one dot and at least one digit,
  and \<open>ValueError\<close> (here \<open>None\<close>) otherwise, as for \<^verbatim>\<open>"1.2.3"\<close> or \<^verbatim>\<open>"."\<close>.
\<close>

definition digits_value :: "string \<Rightarrow> nat" where
  "digits_value ds = foldl (\<lambda>n c. 10 * n + (of_char c - 48)) 0 ds"

definition py_float :: "string \<Rightarrow> real option" where
  "py_float s =
     (let ip = takeWhile digit s in
      case dropWhile digit s of
        [] \<Rightarrow> if ip = [] then None else Some (real (digits_value ip))
      | d # fp \<Rightarrow>
          if d = CHR ''.'' \<and> list_all digit fp \<and> (ip \<noteq> [] \<or> fp \<noteq> [])
          then Some (real (digits_value ip) + real (digits_value fp) / 10 ^ length fp)
          else None)"

text \<open>
  \<open>extract_value\<close> returns the pair \<open>(symbol, value)\<close> and the state of the random
  source, or raises the \<open>ValueError\<close> of \<open>float\<close>. Group 3, when present, is not
  empty, so \<open>if match.group(3)\<close> tests its presence.
\<close>

definition extract_value ::
  "string \<Rightarrow> rng \<Rightarrow> py_error + ((string \<times> real option) \<times> rng)" where
  "extract_value instruction r =
     (case re_match instruction of
        Some (symbol, g2, g3) \<Rightarrow>
          (case g3 of
             Some g3' \<Rightarrow>
               (case py_float g2 of
                  None \<Rightarrow> Inl ValueError
                | Some min_angle \<Rightarrow>
                    (case py_float g3' of
                       None \<Rightarrow> Inl ValueError
                     | Some max_angle \<Rightarrow>
                         (let (random_angle, r') = uniform min_angle max_angle r
                          in Inr ((symbol, Some random_angle), r'))))
           | None \<Rightarrow>
               (case py_float g2 of
                  None \<Rightarrow> Inl ValueError
                | Some v \<Rightarrow> Inr ((symbol, Some v), r)))
      | None \<Rightarrow> Inr ((instruction, None), r))"

section \<open>The turtle interpreter: \<open>draw\<close>\<close>

text \<open>
  What \<open>draw\<close> creates in the Blender scene is recorded as a list of commands in the
  order of creation: the sphere of \<open>create_sphere\<close>, the edge of \<open>add_line\<close>, the
  mesh copy of \<open>add_mesh_instance\<close> with its location and random rotation. A mesh object
  is an opaque handle.
\<close>

type_synonym mesh = nat

datatype command =
    StartMarker Vector
  | LineSegment Vector Vector
  | InstancePlacement mesh Vector Euler

record lsystem =
  numIters :: int
  startStr :: string
  rules :: rules
  step_length :: real
  default_angle :: real
  resultStrs :: "string list"
  mesh_dict :: "string \<rightharpoonup> mesh"

definition rotations :: "real \<Rightarrow> string \<rightharpoonup> Euler" where
  "rotations angle =
     [''+'' \<mapsto> (0, 0, angle), ''-'' \<mapsto> (0, 0, - angle),
      ''&'' \<mapsto> (angle, 0, 0), ''^'' \<mapsto> (- angle, 0, 0),
      ''<'' \<mapsto> (0, angle, 0), ''>'' \<mapsto> (0, - angle, 0),
      ''|'' \<mapsto> (0, 0, pi)]"

text \<open>\<open>rotate_direction\<close> changes the vector in place; the model returns the new one.\<close>

definition rotate_direction :: "lsystem \<Rightarrow> string \<Rightarrow> Vector \<Rightarrow> real option \<Rightarrow> Vector" where
  "rotate_direction self symbol direction value =
     (let angle = radians (case value of Some v \<Rightarrow> v | None \<Rightarrow> default_angle self)
      in case rotations angle symbol of
           Some e \<Rightarrow> rotate e direction
         | None \<Rightarrow> direction)"

text \<open>
  The local variables of \<open>draw\<close> (\<open>location\<close>, \<open>direction\<close>, \<open>stack\<close>), the state
  of the random source and the scene. The stack is a Python list: \<open>append\<close> adds at the
  end, \<open>pop\<close> takes the last element. The stack holds copies of the two vectors, and
  the scene copies the coordinates it is given, so there is no aliasing to model.
\<close>

record turtle =
  location :: Vector
  direction :: Vector
  stack :: "(Vector \<times> Vector) list"
  rand :: rng
  scene :: "command list"

text \<open>\<open>add_mesh_instance\<close>, called only for a symbol that is a key of \<open>mesh_dict\<close>.\<close>

definition add_mesh_instance :: "lsystem \<Rightarrow> string \<Rightarrow> turtle \<Rightarrow> turtle" where
  "add_mesh_instance self symbol t =
     (let (rx, r1) = uniform 0 (2 * pi) (rand t);
          (ry, r2) = uniform 0 (2 * pi) r1;
          (rz, r3) = uniform 0 (2 * pi) r2
      in t\<lparr>rand := r3,
           scene := scene t @
             [InstancePlacement (the (mesh_dict self symbol)) (location t) (rx, ry, rz)]\<rparr>)"

text \<open>
  The \<open>if\<close>/\<open>elif\<close> chain of the loop body, in the order of the source: the mesh
  dictionary is consulted first. \<open>stack.pop()\<close> on an empty list raises \<open>IndexError\<close>;
  the error is returned with the state reached, whose scene holds what was created so far.
\<close>

definition draw_instruction ::
  "lsystem \<Rightarrow> string \<Rightarrow> real option \<Rightarrow> turtle \<Rightarrow> py_error \<times> turtle + turtle" where
  "draw_instruction self symbol value t =
     (if symbol \<in> dom (mesh_dict self) then Inr (add_mesh_instance self symbol t)
      else if symbol = ''F'' then
        (let step = (case value of Some v \<Rightarrow> v | None \<Rightarrow> step_length self);
             new_location = vadd (location t) (smul (direction t) step)
         in Inr (t\<lparr>location := new_location,
                   scene := scene t @ [LineSegment (location t) new_location]\<rparr>))
      else if symbol = ''f'' then
        (let step = (case value of Some v \<Rightarrow> v | None \<Rightarrow> step_length self)
         in Inr (t\<lparr>location := vadd (location t) (smul (direction t) step)\<rparr>))
      else if symbol = ''['' then
        Inr (t\<lparr>stack := stack t @ [(location t, direction t)]\<rparr>)
      else if symbol = '']'' then
        (if stack t = [] then Inl (IndexError, t)
         else Inr (t\<lparr>location := fst (last (stack t)), direction := snd (last (stack t)),
                     stack := butlast (stack t)\<rparr>))
      else Inr (t\<lparr>direction := rotate_direction self symbol (direction t) value\<rparr>))"

text \<open>
  \<open>rule.find(')', index)\<close> and \<open>rule[index:end_index + 1]\<close> for the arguments that
  occur: \<open>index \<ge> 0\<close> at the head of the loop, and \<open>find\<close> returns \<open>-1\<close> when there is no
  closing parenthesis from \<open>index\<close> on, which makes the slice \<open>rule[index:0]\<close> empty.
\<close>

definition py_find :: "string \<Rightarrow> char \<Rightarrow> int \<Rightarrow> int" where
  "py_find s c start =
     (if c \<in> set (drop (nat start) s)
      then start + int (length (takeWhile (\<lambda>x. x \<noteq> c) (drop (nat start) s)))
      else - 1)"

definition py_slice :: "string \<Rightarrow> int \<Rightarrow> int \<Rightarrow> string" where
  "py_slice s i j = drop (nat i) (take (nat j) s)"

text \<open>Lines 98 to 103: the instruction at \<open>index\<close> and the index of its last character.\<close>

definition next_instruction :: "string \<Rightarrow> int \<Rightarrow> string \<times> int" where
  "next_instruction rule index =
     (if index + 2 < int (length rule) \<and> rule ! nat (index + 1) = CHR ''(''
      then (let end_index = py_find rule (CHR '')'') index
            in (py_slice rule index (end_index + 1), end_index))
      else ([rule ! nat index], index))"

text \<open>
  The loop \<open>while index < len(rule)\<close>. It need not end, so the result is an option:
  \<open>None\<close> when the loop runs forever, \<open>Some (Inl (e, t))\<close> when the exception \<open>e\<close> leaves
  it in state \<open>t\<close>, \<open>Some (Inr t)\<close> when it ends in state \<open>t\<close>.
\<close>

partial_function (option) draw_while ::
  "lsystem \<Rightarrow> string \<Rightarrow> int \<Rightarrow> turtle \<Rightarrow> (py_error \<times> turtle + turtle) option" where
  "draw_while self rule index t =
     (if index < int (length rule) then
        (case next_instruction rule index of (instruction, index') \<Rightarrow>
           (case extract_value instruction (rand t) of
              Inl e \<Rightarrow> Some (Inl (e, t))
            | Inr ((symbol, value), r) \<Rightarrow>
                (case draw_instruction self symbol value (t\<lparr>rand := r\<rparr>) of
                   Inl err \<Rightarrow> Some (Inl err)
                 | Inr t' \<Rightarrow> draw_while self rule (index' + 1) t')))
      else Some (Inr t))"

text \<open>The loop \<open>for rule in self.resultStrs\<close>: the state is not reset between rules.\<close>

fun draw_for ::
  "lsystem \<Rightarrow> string list \<Rightarrow> turtle \<Rightarrow> (py_error \<times> turtle + turtle) option" where
  "draw_for self [] t = Some (Inr t)"
| "draw_for self (rule # rest) t =
     (case draw_while self rule 0 t of
        None \<Rightarrow> None
      | Some (Inl err) \<Rightarrow> Some (Inl err)
      | Some (Inr t') \<Rightarrow> draw_for self rest t')"

text \<open>\<open>draw\<close>, started with the random source in state \<open>r\<close> and an empty scene.\<close>

definition draw_start :: "rng \<Rightarrow> turtle" where
  "draw_start r =
     (let direction = Vector 0 1 0;
          location = Vector 0 0 0
      in \<lparr>location = location, direction = direction, stack = [], rand = r,
          scene = [StartMarker location]\<rparr>)"

definition draw :: "lsystem \<Rightarrow> rng \<Rightarrow> (py_error \<times> turtle + turtle) option" where
  "draw self r = draw_for self (resultStrs self) (draw_start r)"

text \<open>
  \<open>__init__\<close> stores its arguments, seeds the random source and calls \<open>generate\<close>.
  \<open>random.seed(random_seed)\<close> puts the generator in a state that the seed determines,
  \<open>seeded random_seed\<close>; \<open>random.seed()\<close> takes the state from the operating system,
  \<open>entropy\<close>. Both belong to Python's library and are parameters here: that a seed
  fixes every later draw is an assumption of the model, not a property proved of the
  library. The result is the object and the state of the random source.
\<close>

definition LSystem_init ::
  "(int \<Rightarrow> rng) \<Rightarrow> rng \<Rightarrow> int \<Rightarrow> string \<Rightarrow> rules \<Rightarrow> real \<Rightarrow> real \<Rightarrow> (string \<rightharpoonup> mesh) \<Rightarrow> int option
     \<Rightarrow> lsystem \<times> rng" where
  "LSystem_init seeded entropy iters start rs step angle meshes random_seed =
     (\<lparr>numIters = iters, startStr = start, rules = rs, step_length = step,
       default_angle = angle, resultStrs = generate rs iters start, mesh_dict = meshes\<rparr>,
      case random_seed of Some s \<Rightarrow> seeded s | None \<Rightarrow> entropy)"

section \<open>Instruction sequences\<close>

text \<open>
  The instructions that the loop of \<open>draw\<close> cuts out of a rule from \<open>index\<close> on: the
  same index arithmetic as \<open>draw_while\<close>, without the interpretation. \<open>None\<close> when the
  scan does not end.
\<close>

partial_function (option) instructions :: "string \<Rightarrow> int \<Rightarrow> string list option" where
  "instructions rule index =
     (if index < int (length rule) then
        (case next_instruction rule index of (instruction, index') \<Rightarrow>
           Option.bind (instructions rule (index' + 1)) (\<lambda>rest. Some (instruction # rest)))
      else Some [])"

text \<open>The loop body applied to a list of instructions, one after the other.\<close>

fun draw_instructions ::
  "lsystem \<Rightarrow> string list \<Rightarrow> turtle \<Rightarrow> py_error \<times> turtle + turtle" where
  "draw_instructions self [] t = Inr t"
| "draw_instructions self (instruction # rest) t =
     (case extract_value instruction (rand t) of
        Inl e \<Rightarrow> Inl (e, t)
      | Inr ((symbol, value), r) \<Rightarrow>
          (case draw_instruction self symbol value (t\<lparr>rand := r\<rparr>) of
             Inl err \<Rightarrow> Inl err
           | Inr t' \<Rightarrow> draw_instructions self rest t'))"

text \<open>
  The symbol that \<open>extract_value\<close> returns for an instruction (it does not depend on the
  random source), and whether its number groups are accepted by \<open>float\<close>.
\<close>

definition instruction_symbol :: "string \<Rightarrow> string" where
  "instruction_symbol instruction =
     (case re_match instruction of Some (symbol, g2, g3) \<Rightarrow> symbol | None \<Rightarrow> instruction)"

definition value_ok :: "string \<Rightarrow> bool" where
  "value_ok instruction =
     (case re_match instruction of
        Some (symbol, g2, g3) \<Rightarrow>
          py_float g2 \<noteq> None \<and> (case g3 of Some g3' \<Rightarrow> py_float g3' \<noteq> None | None \<Rightarrow> True)
      | None \<Rightarrow> True)"

text \<open>
  A sequence of symbols has as many \<open>[\<close> as \<open>]\<close>, validly nested, when a scan that
  counts the open brackets never meets \<open>]\<close> at depth 0 and ends at depth 0.
  \<open>nesting d\<close> is that scan from depth \<open>d\<close>.
\<close>

fun nesting :: "nat \<Rightarrow> string list \<Rightarrow> bool" where
  "nesting d [] = (d = 0)"
| "nesting d (s # ss) =
     (if s = ''['' then nesting (Suc d) ss
      else if s = '']'' then 0 < d \<and> nesting (d - 1) ss
      else nesting d ss)"

text \<open>
  The text between the parentheses of an instruction is a parameter text when it is one
  run of digits and dots, or two of them separated by a comma.
\<close>

definition digits_dots :: "string \<Rightarrow> bool" where
  "digits_dots s = (s \<noteq> [] \<and> list_all digit_or_dot s)"

definition parameter_text :: "string \<Rightarrow> bool" where
  "parameter_text arg =
     (digits_dots arg \<or>
      (CHR '','' \<in> set arg \<and> digits_dots (takeWhile (\<lambda>x. x \<noteq> CHR '','') arg) \<and>
       digits_dots (tl (dropWhile (\<lambda>x. x \<noteq> CHR '','') arg))))"

fun is_marker :: "command \<Rightarrow> bool" where
  "is_marker (StartMarker p) = True"
| "is_marker (LineSegment p q) = False"
| "is_marker (InstancePlacement m p e) = False"

section \<open>The object of the main block\<close>

text \<open>
  The L-system that the main block constructs, with the handles 0 and 1 for the two mesh
  objects, and a random source that always returns 0.
\<close>

definition main_lsystem :: lsystem where
  "main_lsystem =
     \<lparr>numIters = 3, startStr = ''G'',
      rules = [CHR ''G'' \<mapsto> ''[+FAG][-FAG][++FBG][--FBG]'',
               CHR ''A'' \<mapsto> ''&F[&(90)F+(45)F]FFF'',
               CHR ''B'' \<mapsto> ''^F[^(90)F+(45)F]FFF''],
      step_length = 1, default_angle = 30,
      resultStrs = generate [CHR ''G'' \<mapsto> ''[+FAG][-FAG][++FBG][--FBG]'',
               CHR ''A'' \<mapsto> ''&F[&(90)F+(45)F]FFF'',
               CHR ''B'' \<mapsto> ''^F[^(90)F+(45)F]FFF''] 3 ''G'',
      mesh_dict = [''P'' \<mapsto> 0, ''L'' \<mapsto> 1]\<rparr>"

definition still :: rng where "still = (\<lambda>n. 0)"

section \<open>Further notions used in the statements\<close>

text \<open>The state in which \<open>draw\<close> ends, whether it returns or raises.\<close>

fun final :: "py_error \<times> turtle + turtle \<Rightarrow> turtle" where
  "final (Inl (e, t)) = t"
| "final (Inr t) = t"

text \<open>
  A numeric literal made of digits and dots is a string that \<open>float\<close> accepts; a numeric
  argument is one such literal, or two of them separated by a comma.
\<close>

definition numeric_literal :: "string \<Rightarrow> bool" where
  "numeric_literal s = (py_float s \<noteq> None)"

definition numeric_argument :: "string \<Rightarrow> bool" where
  "numeric_argument arg =
     (numeric_literal arg \<or>
      (CHR '','' \<in> set arg \<and> numeric_literal (takeWhile (\<lambda>x. x \<noteq> CHR '','') arg) \<and>
       numeric_literal (tl (dropWhile (\<lambda>x. x \<noteq> CHR '','') arg))))"

text \<open>
  Every opening parenthesis of a rule has a closing one somewhere after it.
\<close>

fun closed_parentheses :: "string \<Rightarrow> bool" where
  "closed_parentheses [] = True"
| "closed_parentheses (c # cs) =
     (if c = CHR ''('' then CHR '')'' \<in> set cs \<and> closed_parentheses cs
      else closed_parentheses cs)"

text \<open>
  The symbol of an instruction as the parser of the specification reads it: any
  character that is followed by an opening parenthesis carries a parameter list, and the
  character alone is the symbol. (\<open>instruction_symbol\<close> is what \<open>extract_value\<close> returns,
  which is this only for the characters that the regular expression admits.)
\<close>

definition spec_symbol :: "string \<Rightarrow> string" where
  "spec_symbol instruction =
     (case instruction of
        c # p # rest \<Rightarrow> if p = CHR ''('' then [c] else instruction
      | _ \<Rightarrow> instruction)"



text \<open>
  Two small objects, constructed as \<open>__init__\<close> does: one rewriting round from \<open>F\<close> with
  the rule \<open>F \<rightarrow> Ff\<close>, and the start string \<open>]\<close> with no round.
\<close>

definition two_generations :: lsystem where
  "two_generations =
     fst (LSystem_init (\<lambda>s. still) still 1 ''F'' [CHR ''F'' \<mapsto> ''Ff''] 1 30 Map.empty (Some 0))"

definition closing_only :: lsystem where
  "closing_only =
     fst (LSystem_init (\<lambda>s. still) still 0 '']'' Map.empty 1 30 [''P'' \<mapsto> 0, ''L'' \<mapsto> 1] (Some 0))"

section \<open>Properties of the grammar engine\<close>

lemma generate_for_length:
  "length (generate_for rs k oldStr acc) = length acc + k"
  by (induction k arbitrary: oldStr acc) (simp_all add: Let_def)

lemma generate_for_prefix:
  "i < length acc \<Longrightarrow> generate_for rs k oldStr acc ! i = acc ! i"
  by (induction k arbitrary: oldStr acc) (simp_all add: Let_def nth_append)

lemma generate_for_step:
  assumes "acc \<noteq> []" and "last acc = oldStr" and "length acc \<le> i" and "i < length acc + k"
  shows "generate_for rs k oldStr acc ! i
           = replaceProcess rs (generate_for rs k oldStr acc ! (i - 1))"
  using assms
proof (induction k arbitrary: oldStr acc)
  case 0
  then show ?case by simp
next
  case (Suc k)
  let ?new = "replaceProcess rs oldStr"
  let ?acc = "acc @ [?new]"
  show ?case
  proof (cases "i = length acc")
    case True
    have here: "generate_for rs k ?new ?acc ! i = ?new"
      using True by (simp add: generate_for_prefix)
    have "i - 1 < length ?acc" using True Suc.prems(1) by simp
    then have "generate_for rs k ?new ?acc ! (i - 1) = ?acc ! (i - 1)"
      by (rule generate_for_prefix)
    also have "\<dots> = last acc"
      using True Suc.prems(1) by (simp add: nth_append last_conv_nth)
    finally have before: "generate_for rs k ?new ?acc ! (i - 1) = oldStr"
      using Suc.prems(2) by simp
    show ?thesis using here before by (simp add: Let_def)
  next
    case False
    have "generate_for rs k ?new ?acc ! i
            = replaceProcess rs (generate_for rs k ?new ?acc ! (i - 1))"
      using Suc.prems False by (intro Suc.IH) simp_all
    then show ?thesis by (simp add: Let_def)
  qed
qed

text \<open>
  Claim C1. For every rule set \<open>rs\<close>, start string and iteration count \<open>n \<ge> 0\<close> the
  production sequence has the generations \<open>0 .. n\<close>; generation 0 is the start string, and
  generation \<open>i\<close> (for \<open>1 \<le> i \<le> n\<close>) is the concatenation, in order, of the
  replacements of the characters of generation \<open>i - 1\<close>, where a character without a
  rule is replaced by itself. The rules \<open>A \<rightarrow> AB\<close>, \<open>B \<rightarrow> A\<close> from \<open>A\<close> give
  \<open>A, AB, ABA, ABAAB\<close> in three rounds.
\<close>

theorem generate_production_sequence:
  "(0 \<le> n \<longrightarrow>
      length (generate rs n start) = nat n + 1 \<and>
      generate rs n start ! 0 = start \<and>
      (\<forall>i. 1 \<le> i \<and> i \<le> nat n \<longrightarrow>
         generate rs n start ! i
           = concat (map (\<lambda>c. case rs c of None \<Rightarrow> [c] | Some s \<Rightarrow> s)
                         (generate rs n start ! (i - 1))))) \<and>
   generate [CHR ''A'' \<mapsto> ''AB'', CHR ''B'' \<mapsto> ''A''] 3 ''A''
     = [''A'', ''AB'', ''ABA'', ''ABAAB'']"
proof -
  have len: "length (generate rs n start) = nat n + 1"
    by (simp add: generate_def generate_for_length)
  have zero: "generate rs n start ! 0 = start"
    by (simp add: generate_def generate_for_prefix)
  have step: "generate rs n start ! i
                = concat (map (\<lambda>c. case rs c of None \<Rightarrow> [c] | Some s \<Rightarrow> s)
                              (generate rs n start ! (i - 1)))"
    if "1 \<le> i" "i \<le> nat n" for i
  proof -
    have "generate_for rs (nat n) start [start] ! i
            = replaceProcess rs (generate_for rs (nat n) start [start] ! (i - 1))"
      using that by (intro generate_for_step) simp_all
    moreover have "replace rs = (\<lambda>c. case rs c of None \<Rightarrow> [c] | Some s \<Rightarrow> s)"
      by (rule ext) (simp add: replace_def)
    ultimately show ?thesis by (simp add: generate_def replaceProcess_def)
  qed
  have ex: "generate [CHR ''A'' \<mapsto> ''AB'', CHR ''B'' \<mapsto> ''A''] 3 ''A''
              = [''A'', ''AB'', ''ABA'', ''ABAAB'']"
    by (simp add: generate_def eval_nat_numeral Let_def replaceProcess_def replace_def)
  show ?thesis using len zero step ex by blast
qed

theorem generate_production_sequence_witness:
  "(0::int) \<le> 2 \<and>
   length (generate [CHR ''F'' \<mapsto> ''F+F''] 2 ''FX'') = 3 \<and>
   generate [CHR ''F'' \<mapsto> ''F+F''] 2 ''FX'' ! 0 = ''FX'' \<and>
   generate [CHR ''F'' \<mapsto> ''F+F''] 2 ''FX'' ! 2
     = concat (map (\<lambda>c. case [CHR ''F'' \<mapsto> ''F+F''] c of None \<Rightarrow> [c] | Some s \<Rightarrow> s)
                   (generate [CHR ''F'' \<mapsto> ''F+F''] 2 ''FX'' ! 1)) \<and>
   generate [CHR ''F'' \<mapsto> ''F+F''] 2 ''FX'' ! 2 = ''F+F+F+FX''"
proof -
  have g: "generate [CHR ''F'' \<mapsto> ''F+F''] 2 ''FX'' = [''FX'', ''F+FX'', ''F+F+F+FX'']"
    by (simp add: generate_def eval_nat_numeral Let_def replaceProcess_def replace_def)
  have h: "(0::int) \<le> 2" by simp
  from generate_production_sequence [of 2 "[CHR ''F'' \<mapsto> ''F+F'']" "''FX''"] h
  have "length (generate [CHR ''F'' \<mapsto> ''F+F''] 2 ''FX'') = nat 2 + 1"
    and "generate [CHR ''F'' \<mapsto> ''F+F''] 2 ''FX'' ! 0 = ''FX''"
    and "generate [CHR ''F'' \<mapsto> ''F+F''] 2 ''FX'' ! 2
           = concat (map (\<lambda>c. case [CHR ''F'' \<mapsto> ''F+F''] c of None \<Rightarrow> [c] | Some s \<Rightarrow> s)
                         (generate [CHR ''F'' \<mapsto> ''F+F''] 2 ''FX'' ! (2 - 1)))"
    by simp_all
  then show ?thesis using g by simp
qed

text \<open>
  Claim C9 says that a negative iteration count makes generation fail. \<open>generate\<close>
  contains no check and no \<open>raise\<close>: \<open>range\<close> of a negative number is empty, the loop body
  never runs, and the call returns with the production sequence that \<open>__init__\<close> set up,
  the start string alone.
\<close>

theorem generate_negative_counterexample:
  "generate [CHR ''A'' \<mapsto> ''AB'', CHR ''B'' \<mapsto> ''A''] (- 1) ''A'' = [''A'']"
  by (simp add: generate_def)

text \<open>
  Claim C9, amended. With a negative iteration count generation does not fail: no
  rewriting round runs and the production sequence is the start string alone, as for the
  count 0.
\<close>

theorem generate_negative:
  "n < 0 \<Longrightarrow> generate rs n start = [start]"
  by (simp add: generate_def)

theorem generate_negative_witness:
  "(- 3 :: int) < 0 \<and> generate [CHR ''F'' \<mapsto> ''FF''] (- 3) ''F'' = [''F'']"
  using generate_negative [of "- 3" "[CHR ''F'' \<mapsto> ''FF'']" "''F''"] by simp

section \<open>Properties of the interpreter\<close>

lemma sin_radians_30: "sin (radians 30) = 1 / 2"
  by (simp add: radians_def sin_30)
lemma cos_radians_30: "cos (radians 30) = sqrt 3 / 2"
  by (simp add: radians_def cos_30)

lemmas parse_defs = next_instruction_def py_find_def py_slice_def extract_value_def symbol_char_def
  digit_or_dot_def py_float_def digit_def digits_value_def

lemma draw_instruction_Inr:
  "symbol \<noteq> '']'' \<Longrightarrow> \<exists>t'. draw_instruction self symbol value t = Inr t'"
  by (simp add: draw_instruction_def Let_def)



lemma rotations_dom:
  "rotations a s \<noteq> None \<Longrightarrow> s \<in> {''+'', ''-'', ''&'', ''^'', ''<'', ''>'', ''|''}"
  by (auto simp: rotations_def split: if_splits)

lemma rotations_None:
  "length s \<noteq> 1 \<Longrightarrow> rotations a s = None"
  using rotations_dom [of a s] by (cases "rotations a s") auto


text \<open>
  Claim C2. An instruction \<open>F\<close> (one that the mesh dictionary, which \<open>draw\<close> consults
  first, does not claim) moves by the parameter when there is one and by \<open>step_length\<close>
  otherwise, adds the segment from the old to the new location to the scene and makes the
  new location current; \<open>f\<close> moves in the same way and adds nothing. Interpreting
  \<open>F(2)+[F(1)]F(3)\<close> from the origin with direction \<open>(0, 1, 0)\<close> and default angle 30
  gives the segment from \<open>(0, 0, 0)\<close> to \<open>(0, 2, 0)\<close>, the direction turned by 30 degrees
  about the Z axis, a segment of length 1 from \<open>(0, 2, 0)\<close> along it, the location
  \<open>(0, 2, 0)\<close> again after the closing bracket, and a segment of length 3 from there along
  the turned direction.
\<close>

theorem forward_motion:
  "(''F'' \<notin> dom (mesh_dict self) \<longrightarrow>
      draw_instruction self ''F'' value t =
        Inr (t\<lparr>location := vadd (location t) (smul (direction t)
                                 (case value of Some v \<Rightarrow> v | None \<Rightarrow> step_length self)),
               scene := scene t @
                 [LineSegment (location t)
                    (vadd (location t) (smul (direction t)
                       (case value of Some v \<Rightarrow> v | None \<Rightarrow> step_length self)))]\<rparr>)) \<and>
   (''f'' \<notin> dom (mesh_dict self) \<longrightarrow>
      draw_instruction self ''f'' value t =
        Inr (t\<lparr>location := vadd (location t) (smul (direction t)
                                 (case value of Some v \<Rightarrow> v | None \<Rightarrow> step_length self))\<rparr>)) \<and>
   (''F'' \<notin> dom (mesh_dict self) \<and> ''+'' \<notin> dom (mesh_dict self) \<and>
    ''['' \<notin> dom (mesh_dict self) \<and> '']'' \<notin> dom (mesh_dict self) \<and> default_angle self = 30 \<longrightarrow>
      rot_z (radians 30) (Vector 0 1 0) = Vector (- 1 / 2) (sqrt 3 / 2) 0 \<and>
      draw_while self ''F(2)+[F(1)]F(3)'' 0
          \<lparr>location = Vector 0 0 0, direction = Vector 0 1 0, stack = [], rand = r, scene = cmds\<rparr>
        = Some (Inr
           \<lparr>location = vadd (Vector 0 2 0) (smul (rot_z (radians 30) (Vector 0 1 0)) 3),
            direction = rot_z (radians 30) (Vector 0 1 0), stack = [], rand = r,
            scene = cmds @
              [LineSegment (Vector 0 0 0) (Vector 0 2 0),
               LineSegment (Vector 0 2 0)
                 (vadd (Vector 0 2 0) (smul (rot_z (radians 30) (Vector 0 1 0)) 1)),
               LineSegment (Vector 0 2 0)
                 (vadd (Vector 0 2 0) (smul (rot_z (radians 30) (Vector 0 1 0)) 3))]\<rparr>))"
proof (intro conjI impI)
  assume "''F'' \<notin> dom (mesh_dict self)"
  then show "draw_instruction self ''F'' value t =
        Inr (t\<lparr>location := vadd (location t) (smul (direction t)
                                 (case value of Some v \<Rightarrow> v | None \<Rightarrow> step_length self)),
               scene := scene t @
                 [LineSegment (location t)
                    (vadd (location t) (smul (direction t)
                       (case value of Some v \<Rightarrow> v | None \<Rightarrow> step_length self)))]\<rparr>)"
    by (simp add: draw_instruction_def Let_def)
next
  assume "''f'' \<notin> dom (mesh_dict self)"
  then show "draw_instruction self ''f'' value t =
        Inr (t\<lparr>location := vadd (location t) (smul (direction t)
                                 (case value of Some v \<Rightarrow> v | None \<Rightarrow> step_length self))\<rparr>)"
    by (simp add: draw_instruction_def Let_def)
next
  show "rot_z (radians 30) (Vector 0 1 0) = Vector (- 1 / 2) (sqrt 3 / 2) 0"
    by (simp add: sin_radians_30 cos_radians_30)
next
  assume "''F'' \<notin> dom (mesh_dict self) \<and> ''+'' \<notin> dom (mesh_dict self) \<and>
    ''['' \<notin> dom (mesh_dict self) \<and> '']'' \<notin> dom (mesh_dict self) \<and> default_angle self = 30"
  then show "draw_while self ''F(2)+[F(1)]F(3)'' 0
          \<lparr>location = Vector 0 0 0, direction = Vector 0 1 0, stack = [], rand = r, scene = cmds\<rparr>
        = Some (Inr
           \<lparr>location = vadd (Vector 0 2 0) (smul (rot_z (radians 30) (Vector 0 1 0)) 3),
            direction = rot_z (radians 30) (Vector 0 1 0), stack = [], rand = r,
            scene = cmds @
              [LineSegment (Vector 0 0 0) (Vector 0 2 0),
               LineSegment (Vector 0 2 0)
                 (vadd (Vector 0 2 0) (smul (rot_z (radians 30) (Vector 0 1 0)) 1)),
               LineSegment (Vector 0 2 0)
                 (vadd (Vector 0 2 0) (smul (rot_z (radians 30) (Vector 0 1 0)) 3))]\<rparr>)"
    by (simp add: draw_while.simps parse_defs draw_instruction_def rotate_direction_def
          rotations_def sin_radians_30 cos_radians_30 Let_def)
qed

theorem forward_motion_witness:
  "''F'' \<notin> dom (mesh_dict main_lsystem) \<and> ''f'' \<notin> dom (mesh_dict main_lsystem) \<and>
   ''+'' \<notin> dom (mesh_dict main_lsystem) \<and> ''['' \<notin> dom (mesh_dict main_lsystem) \<and>
   '']'' \<notin> dom (mesh_dict main_lsystem) \<and> default_angle main_lsystem = 30 \<and>
   draw_instruction main_lsystem ''F'' None
       \<lparr>location = Vector 1 1 1, direction = Vector 0 0 1, stack = [], rand = still, scene = []\<rparr>
     = Inr \<lparr>location = Vector 1 1 2, direction = Vector 0 0 1, stack = [], rand = still,
            scene = [LineSegment (Vector 1 1 1) (Vector 1 1 2)]\<rparr> \<and>
   draw_instruction main_lsystem ''f'' None
       \<lparr>location = Vector 1 1 1, direction = Vector 0 0 1, stack = [], rand = still, scene = []\<rparr>
     = Inr \<lparr>location = Vector 1 1 2, direction = Vector 0 0 1, stack = [], rand = still,
            scene = []\<rparr> \<and>
   draw_while main_lsystem ''F(2)+[F(1)]F(3)'' 0
       \<lparr>location = Vector 0 0 0, direction = Vector 0 1 0, stack = [], rand = still, scene = []\<rparr>
     = Some (Inr
         \<lparr>location = Vector (- 3 / 2) (2 + 3 * sqrt 3 / 2) 0,
          direction = Vector (- 1 / 2) (sqrt 3 / 2) 0, stack = [], rand = still,
          scene = [LineSegment (Vector 0 0 0) (Vector 0 2 0),
                   LineSegment (Vector 0 2 0) (Vector (- 1 / 2) (2 + sqrt 3 / 2) 0),
                   LineSegment (Vector 0 2 0) (Vector (- 3 / 2) (2 + 3 * sqrt 3 / 2) 0)]\<rparr>)"
  using forward_motion [of main_lsystem None
      "\<lparr>location = Vector 1 1 1, direction = Vector 0 0 1, stack = [], rand = still, scene = []\<rparr>"
      still "[]"]
  by (simp add: main_lsystem_def)





lemma open_parenthesis_at_end:
  assumes "''F'' \<notin> dom (mesh_dict self)" "''('' \<notin> dom (mesh_dict self)"
  shows "draw_while self ''F('' 0 t
           = Some (Inr (t\<lparr>location := vadd (location t) (smul (direction t) (step_length self)),
                          scene := scene t @
                            [LineSegment (location t)
                               (vadd (location t) (smul (direction t) (step_length self)))]\<rparr>))"
  using assms
  by (simp add: draw_while.simps parse_defs draw_instruction_def rotate_direction_def
        rotations_def Let_def)

text \<open>
  Claim C8 says that a rule in which a symbol is followed by an opening parenthesis that is
  never closed fails with an error of its own. In \<open>draw\<close>, \<open>rule.find\<close> returns \<open>-1\<close>
  there; the instruction becomes the empty string, \<open>index\<close> becomes \<open>-1\<close> and then 0, and
  the loop starts again at the first character. On the rule \<open>F(2\<close> the loop never
  ends: it neither returns nor raises.
\<close>

theorem unterminated_parameter_list_loops: "draw_while self ''F(2'' 0 t = None"
proof (cases "draw_while self ''F(2'' 0 t")
  case None then show ?thesis .
next
  case (Some res)
  have "\<not> (''F(2'' = ''F(2'' \<and> (0::int) = 0)"
  proof (rule draw_while.raw_induct
      [where P = "\<lambda>self rule index t res. \<not> (rule = ''F(2'' \<and> index = 0)", OF _ Some])
    fix dw :: "lsystem \<Rightarrow> string \<Rightarrow> int \<Rightarrow> turtle \<Rightarrow> (py_error \<times> turtle + turtle) option"
    fix self rule index t res
    assume IH: "\<And>self rule index t res. dw self rule index t = Some res
                  \<Longrightarrow> \<not> (rule = ''F(2'' \<and> index = 0)"
    assume unfolded: "(if index < int (length rule) then
        (case next_instruction rule index of (instruction, index') \<Rightarrow>
           (case extract_value instruction (rand t) of
              Inl e \<Rightarrow> Some (Inl (e, t))
            | Inr ((symbol, value), r) \<Rightarrow>
                (case draw_instruction self symbol value (t\<lparr>rand := r\<rparr>) of
                   Inl err \<Rightarrow> Some (Inl err)
                 | Inr t' \<Rightarrow> dw self rule (index' + 1) t')))
      else Some (Inr t)) = Some res"
    show "\<not> (rule = ''F(2'' \<and> index = 0)"
    proof
      assume a: "rule = ''F(2'' \<and> index = 0"
      obtain t' where "draw_instruction self [] None (t\<lparr>rand := rand t\<rparr>) = Inr t'"
        using draw_instruction_Inr [of "[]"] by blast
      with unfolded a have "dw self ''F(2'' 0 t' = Some res"
        by (simp add: parse_defs)
      with IH show False by blast
    qed
  qed
  then show ?thesis by simp
qed

lemma extract_value_single:
  "c \<noteq> CHR ''('' \<Longrightarrow> extract_value [c] r = Inr (([c], None), r)"
  by (simp add: extract_value_def)

text \<open>
  Claim C7. The instruction \<open>]\<close> (when the mesh dictionary does not claim it) on an empty
  stack fails: \<open>stack.pop()\<close> raises \<open>IndexError\<close>, the failure that the specification
  calls UnbalancedBranch, and the state is the one before the instruction, so nothing was
  added to the scene. Drawing the production sequence that consists of \<open>]\<close> alone raises
  it with a scene that holds the starting sphere only: no segment, no mesh instance.
\<close>

theorem pop_on_empty:
  "('']'' \<notin> dom (mesh_dict self) \<and> stack t = [] \<longrightarrow>
      draw_instruction self '']'' value t = Inl (IndexError, t) \<and>
      (index < int (length rule) \<and> next_instruction rule index = ('']'', index') \<longrightarrow>
         draw_while self rule index t = Some (Inl (IndexError, t))) \<and>
      draw_while self '']'' 0 t = Some (Inl (IndexError, t))) \<and>
   ('']'' \<notin> dom (mesh_dict self) \<and> resultStrs self = ['']''] \<longrightarrow>
      draw self r = Some (Inl (IndexError, draw_start r)) \<and>
      scene (draw_start r) = [StartMarker (Vector 0 0 0)])"
proof -
  have pop: "draw_instruction self '']'' v u = Inl (IndexError, u)"
    if "'']'' \<notin> dom (mesh_dict self)" "stack u = []" for v u
    using that by (simp add: draw_instruction_def)
  have at: "draw_while self rl i u = Some (Inl (IndexError, u))"
    if "'']'' \<notin> dom (mesh_dict self)" "stack u = []" "i < int (length rl)"
      "next_instruction rl i = ('']'', i')" for rl i i' u
    using that pop [OF that(1), of u None]
    by (subst draw_while.simps) (simp add: extract_value_single)
  have single: "next_instruction '']'' 0 = ('']'', 0)"
    by (simp add: next_instruction_def)
  have alone: "draw_while self '']'' 0 u = Some (Inl (IndexError, u))"
    if "'']'' \<notin> dom (mesh_dict self)" "stack u = []" for u
    using at [OF that _ single] by simp
  have start: "stack (draw_start r) = []" "scene (draw_start r) = [StartMarker (Vector 0 0 0)]"
    by (simp_all add: draw_start_def Let_def)
  have whole: "draw self r = Some (Inl (IndexError, draw_start r))"
    if "'']'' \<notin> dom (mesh_dict self)" "resultStrs self = ['']'']"
    using that alone [OF that(1) start(1)] by (simp add: draw_def)
  show ?thesis using pop at alone whole start by blast
qed

theorem pop_on_empty_witness:
  "'']'' \<notin> dom (mesh_dict closing_only) \<and> resultStrs closing_only = ['']''] \<and>
   stack (draw_start still) = [] \<and>
   draw_instruction closing_only '']'' None (draw_start still) = Inl (IndexError, draw_start still) \<and>
   draw_while closing_only '']'' 0 (draw_start still) = Some (Inl (IndexError, draw_start still)) \<and>
   draw closing_only still
     = Some (Inl (IndexError,
         \<lparr>location = Vector 0 0 0, direction = Vector 0 1 0, stack = [], rand = still,
          scene = [StartMarker (Vector 0 0 0)]\<rparr>))"
proof -
  have h1: "'']'' \<notin> dom (mesh_dict closing_only)"
    by (simp add: closing_only_def LSystem_init_def)
  have h2: "resultStrs closing_only = ['']'']"
    by (simp add: closing_only_def LSystem_init_def generate_def)
  have h3: "stack (draw_start still) = []"
    by (simp add: draw_start_def Let_def)
  from pop_on_empty [of closing_only "draw_start still" None 0 "'']''" 0 still] h1 h2 h3
  show ?thesis by (simp add: draw_start_def Let_def)
qed

lemma takeWhile_closing:
  "CHR '')'' \<notin> set arg \<Longrightarrow> takeWhile digit_or_dot (arg @ '')'') = takeWhile digit_or_dot arg"
  by (induction arg) (auto simp: digit_or_dot_def digit_def)

lemma dropWhile_closing:
  "dropWhile digit_or_dot (arg @ '')'') = dropWhile digit_or_dot arg @ '')''"
  by (induction arg) (auto simp: digit_or_dot_def digit_def)

lemma comma_not_digit_or_dot: "\<not> digit_or_dot (CHR '','')" "\<not> digit_or_dot (CHR '')'')"
  by (simp_all add: digit_or_dot_def digit_def)

lemma digits_dots_takeWhile:
  "digits_dots s \<longleftrightarrow> s \<noteq> [] \<and> takeWhile digit_or_dot s = s"
  by (auto simp: digits_dots_def list_all_iff takeWhile_eq_all_conv)

lemma re_match_None:
  assumes "CHR '')'' \<notin> set arg" "\<not> parameter_text arg"
  shows "re_match (c # CHR ''('' # arg @ '')'') = None"
proof (cases "dropWhile digit_or_dot arg")
  case Nil
  then have all: "takeWhile digit_or_dot arg = arg"
    by (metis append_Nil2 takeWhile_dropWhile_id)
  with assms(2) have "arg = []"
    by (auto simp: parameter_text_def digits_dots_takeWhile)
  then show ?thesis by simp
next
  case (Cons x rest')
  have split: "arg = takeWhile digit_or_dot arg @ x # rest'"
    using Cons by (metis takeWhile_dropWhile_id)
  have xnd: "\<not> digit_or_dot x"
    using Cons by (metis hd_dropWhile list.distinct(1) list.sel(1))
  have xnc: "x \<noteq> CHR '')''" using split assms(1) by (metis in_set_conv_decomp)
  have rest_closing: "CHR '')'' \<notin> set rest'"
    using split assms(1) by (metis Un_iff list.set_intros(2) set_append)
  show ?thesis
  proof (cases "x = CHR '',''")
    case False
    with xnc Cons show ?thesis
      by (simp add: takeWhile_closing [OF assms(1)] dropWhile_closing)
  next
    case True
    have first: "takeWhile (\<lambda>x. x \<noteq> CHR '','') arg = takeWhile digit_or_dot arg"
    proof -
      have "\<forall>y \<in> set (takeWhile digit_or_dot arg). y \<noteq> CHR '',''"
        using comma_not_digit_or_dot(1) by (metis set_takeWhileD)
      then show ?thesis
        by (subst (1) split) (simp add: True takeWhile_append2 takeWhile_tail)
    qed
    have second: "tl (dropWhile (\<lambda>x. x \<noteq> CHR '','') arg) = rest'"
    proof -
      have "\<forall>y \<in> set (takeWhile digit_or_dot arg). y \<noteq> CHR '',''"
        using comma_not_digit_or_dot(1) by (metis set_takeWhileD)
      then show ?thesis
        by (subst (1) split) (simp add: True dropWhile_append2)
    qed
    have comma: "CHR '','' \<in> set arg" using split True by (metis in_set_conv_decomp)
    from assms(2) comma first second
    have no: "\<not> (digits_dots (takeWhile digit_or_dot arg) \<and> digits_dots rest')"
      by (simp add: parameter_text_def)
    show ?thesis
    proof (cases "dropWhile digit_or_dot rest'")
      case Nil
      then have "takeWhile digit_or_dot rest' = rest'"
        by (metis append_Nil2 takeWhile_dropWhile_id)
      with no have "takeWhile digit_or_dot arg = [] \<or> rest' = []"
        by (auto simp: digits_dots_takeWhile)
      then show ?thesis using Cons True
        by (auto simp: takeWhile_closing [OF assms(1)] dropWhile_closing comma_not_digit_or_dot)
    next
      case (Cons y rest'')
      have "y \<noteq> CHR '')''"
        using Cons rest_closing by (metis in_set_conv_decomp takeWhile_dropWhile_id)
      then show ?thesis using Cons \<open>dropWhile digit_or_dot arg = x # rest'\<close> True
        by (simp add: takeWhile_closing [OF assms(1)] dropWhile_closing)
    qed
  qed
qed
lemma draw_instruction_unrecognized:
  assumes "symbol \<notin> dom (mesh_dict self)" "length symbol \<noteq> 1"
  shows "draw_instruction self symbol value t = Inr t"
proof -
  from assms(2) have "symbol \<noteq> ''F''" "symbol \<noteq> ''f''" "symbol \<noteq> ''[''" "symbol \<noteq> '']''"
    by auto
  with assms show ?thesis
    by (simp add: draw_instruction_def rotate_direction_def rotations_None)
qed

lemma next_instruction_token:
  assumes "CHR '')'' \<notin> set arg" "c \<noteq> CHR '')''"
  shows "next_instruction (c # CHR ''('' # arg @ '')'') 0
           = (c # CHR ''('' # arg @ '')'', int (length arg) + 2)"
proof -
  have "takeWhile (\<lambda>x. x \<noteq> CHR '')'') (arg @ '')'') = arg"
    using assms(1) by (induction arg) auto
  then show ?thesis using assms
    by (simp add: next_instruction_def py_find_def py_slice_def nat_add_distrib)
qed

text \<open>
  Claim C10 speaks of an instruction \<open>symbol(arg)\<close> whose argument is not a numeric
  literal, or two of them separated by a comma, made of digits and dots, and says that
  \<open>extract_value\<close> returns it whole, without a value. The regular expression does not ask
  for a number but for a run of digits and dots: \<open>F(1.2.3)\<close> matches, and \<open>float\<close> raises
  \<open>ValueError\<close> on \<open>1.2.3\<close>.
\<close>

theorem malformed_number_counterexample:
  "\<not> numeric_argument ''1.2.3'' \<and> CHR '')'' \<notin> set ''1.2.3'' \<and>
   extract_value ''F(1.2.3)'' still = Inl ValueError"
  by (simp add: numeric_argument_def numeric_literal_def parse_defs)

text \<open>
  Claim C10, amended. When the argument (the text up to the first closing parenthesis)
  is neither a run of digits and dots nor two such runs separated by a comma, as in
  \<open>F(-2)\<close>, \<open>extract_value\<close> returns the whole instruction as the symbol, with no value
  and without touching the random source. Unless the mesh dictionary has that very string
  as a key, \<open>draw\<close> then does nothing for it: the state, scene included, is unchanged and
  nothing is raised.
\<close>

theorem unmatched_parameter_token:
  assumes "CHR '')'' \<notin> set arg" and "\<not> parameter_text arg"
  shows "extract_value (c # CHR ''('' # arg @ '')'') r = Inr ((c # CHR ''('' # arg @ '')'', None), r) \<and>
         (c # CHR ''('' # arg @ '')'' \<notin> dom (mesh_dict self) \<longrightarrow>
            draw_instruction self (c # CHR ''('' # arg @ '')'') None t = Inr t \<and>
            (c \<noteq> CHR '')'' \<longrightarrow> draw_while self (c # CHR ''('' # arg @ '')'') 0 t = Some (Inr t)))"
proof -
  let ?tok = "c # CHR ''('' # arg @ '')''"
  have ev: "extract_value ?tok r' = Inr ((?tok, None), r')" for r'
    using re_match_None [OF assms] by (simp add: extract_value_def)
  have di: "draw_instruction self ?tok None u = Inr u" if "?tok \<notin> dom (mesh_dict self)" for u
    using that by (intro draw_instruction_unrecognized) simp_all
  have dw: "draw_while self ?tok 0 t = Some (Inr t)"
    if "?tok \<notin> dom (mesh_dict self)" "c \<noteq> CHR '')''"
  proof -
    have "draw_while self ?tok 0 t = draw_while self ?tok (int (length arg) + 2 + 1) t"
      using that
      by (subst draw_while.simps)
         (simp add: next_instruction_token [OF assms(1) that(2)] ev di del: re_match.simps)
    also have "\<dots> = Some (Inr t)"
      by (subst draw_while.simps) simp
    finally show ?thesis .
  qed
  show ?thesis using ev di dw by blast
qed

theorem unmatched_parameter_token_witness:
  "CHR '')'' \<notin> set ''-2'' \<and> \<not> parameter_text ''-2'' \<and>
   ''F(-2)'' \<notin> dom (mesh_dict main_lsystem) \<and>
   extract_value ''F(-2)'' still = Inr ((''F(-2)'', None), still) \<and>
   draw_instruction main_lsystem ''F(-2)'' None
       \<lparr>location = Vector 1 1 1, direction = Vector 0 1 0, stack = [], rand = still, scene = []\<rparr>
     = Inr \<lparr>location = Vector 1 1 1, direction = Vector 0 1 0, stack = [], rand = still, scene = []\<rparr> \<and>
   draw_while main_lsystem ''F(-2)'' 0
       \<lparr>location = Vector 1 1 1, direction = Vector 0 1 0, stack = [], rand = still, scene = []\<rparr>
     = Some (Inr \<lparr>location = Vector 1 1 1, direction = Vector 0 1 0, stack = [], rand = still,
                  scene = []\<rparr>)"
proof -
  have h1: "CHR '')'' \<notin> set ''-2''" by simp
  have h2: "\<not> parameter_text ''-2''"
    by (simp add: parameter_text_def digits_dots_def digit_or_dot_def digit_def)
  have h3: "''F(-2)'' \<notin> dom (mesh_dict main_lsystem)" by (simp add: main_lsystem_def)
  from unmatched_parameter_token [OF h1 h2, of "CHR ''F''" still main_lsystem
      "\<lparr>location = Vector 1 1 1, direction = Vector 0 1 0, stack = [], rand = still, scene = []\<rparr>"]
    h1 h2 h3
  show ?thesis by simp
qed


lemma add_mesh_instance_scene:
  "\<exists>c. scene (add_mesh_instance self symbol t) = scene t @ [c] \<and> \<not> is_marker c"
  by (simp add: add_mesh_instance_def Let_def split: prod.splits)

lemma draw_instruction_scene:
  "\<exists>cmds. scene (final (draw_instruction self symbol value t)) = scene t @ cmds \<and>
          (\<forall>c \<in> set cmds. \<not> is_marker c)"
proof (cases "symbol \<in> dom (mesh_dict self)")
  case True
  obtain c where "scene (add_mesh_instance self symbol t) = scene t @ [c]" "\<not> is_marker c"
    using add_mesh_instance_scene by blast
  with True have "scene (final (draw_instruction self symbol value t)) = scene t @ [c] \<and>
      (\<forall>c \<in> set [c]. \<not> is_marker c)"
    by (simp add: draw_instruction_def)
  then show ?thesis by blast
next
  case False
  show ?thesis
  proof (cases "symbol = ''F''")
    case True
    with False have "scene (final (draw_instruction self symbol value t))
        = scene t @ [LineSegment (location t) (vadd (location t) (smul (direction t)
             (case value of Some v \<Rightarrow> v | None \<Rightarrow> step_length self)))]"
      by (simp add: draw_instruction_def Let_def)
    then show ?thesis by force
  next
    case nF: False
    with False have "scene (final (draw_instruction self symbol value t)) = scene t @ []"
      by (simp add: draw_instruction_def Let_def)
    then show ?thesis by force
  qed
qed

lemma draw_while_scene:
  assumes "draw_while self rule index t = Some res"
  shows "\<exists>cmds. scene (final res) = scene t @ cmds \<and> (\<forall>c \<in> set cmds. \<not> is_marker c)"
proof (rule draw_while.raw_induct
    [where P = "\<lambda>self rule index t res.
       \<exists>cmds. scene (final res) = scene t @ cmds \<and> (\<forall>c \<in> set cmds. \<not> is_marker c)",
     OF _ assms])
  fix dw :: "lsystem \<Rightarrow> string \<Rightarrow> int \<Rightarrow> turtle \<Rightarrow> (py_error \<times> turtle + turtle) option"
  fix self rule index t res
  assume IH: "\<And>self rule index t res. dw self rule index t = Some res \<Longrightarrow>
     \<exists>cmds. scene (final res) = scene t @ cmds \<and> (\<forall>c \<in> set cmds. \<not> is_marker c)"
  assume unfolded: "(if index < int (length rule) then
        (case next_instruction rule index of (instruction, index') \<Rightarrow>
           (case extract_value instruction (rand t) of
              Inl e \<Rightarrow> Some (Inl (e, t))
            | Inr ((symbol, value), r) \<Rightarrow>
                (case draw_instruction self symbol value (t\<lparr>rand := r\<rparr>) of
                   Inl err \<Rightarrow> Some (Inl err)
                 | Inr t' \<Rightarrow> dw self rule (index' + 1) t')))
      else Some (Inr t)) = Some res"
  show "\<exists>cmds. scene (final res) = scene t @ cmds \<and> (\<forall>c \<in> set cmds. \<not> is_marker c)"
  proof (cases "index < int (length rule)")
    case False
    with unfolded have "res = Inr t" by simp
    then show ?thesis by simp
  next
    case True
    obtain instruction index' where ni: "next_instruction rule index = (instruction, index')"
      by (cases "next_instruction rule index")
    show ?thesis
    proof (cases "extract_value instruction (rand t)")
      case (Inl e)
      with unfolded True ni have "res = Inl (e, t)" by simp
      then show ?thesis by simp
    next
      case (Inr x)
      obtain symbol "value" r where x: "x = ((symbol, value), r)" by (cases x) auto
      obtain cmds1 where c1:
        "scene (final (draw_instruction self symbol value (t\<lparr>rand := r\<rparr>))) = scene t @ cmds1"
        "\<forall>c \<in> set cmds1. \<not> is_marker c"
        using draw_instruction_scene [of self symbol "value" "t\<lparr>rand := r\<rparr>"] by auto
      show ?thesis
      proof (cases "draw_instruction self symbol value (t\<lparr>rand := r\<rparr>)")
        case (Inl err)
        with unfolded True ni Inr x have "res = Inl err" by simp
        with c1 Inl show ?thesis by auto
      next
        case inr: (Inr t')
        with unfolded True ni Inr x have "dw self rule (index' + 1) t' = Some res" by simp
        from IH [OF this] obtain cmds2 where
          "scene (final res) = scene t' @ cmds2" "\<forall>c \<in> set cmds2. \<not> is_marker c" by blast
        with c1 inr have "scene (final res) = scene t @ (cmds1 @ cmds2) \<and>
            (\<forall>c \<in> set (cmds1 @ cmds2). \<not> is_marker c)" by auto
        then show ?thesis by blast
      qed
    qed
  qed
qed

lemma draw_for_scene:
  "draw_for self rs t = Some res \<Longrightarrow>
     \<exists>cmds. scene (final res) = scene t @ cmds \<and> (\<forall>c \<in> set cmds. \<not> is_marker c)"
proof (induction rs arbitrary: t)
  case Nil
  then show ?case by auto
next
  case (Cons rule rest)
  show ?case
  proof (cases "draw_while self rule 0 t")
    case None
    with Cons.prems show ?thesis by simp
  next
    case (Some r1)
    from draw_while_scene [OF Some] obtain cmds1 where c1:
      "scene (final r1) = scene t @ cmds1" "\<forall>c \<in> set cmds1. \<not> is_marker c" by blast
    show ?thesis
    proof (cases r1)
      case (Inl err)
      with Some Cons.prems have "res = r1" by simp
      with c1 show ?thesis by blast
    next
      case (Inr t1)
      with Some Cons.prems have "draw_for self rest t1 = Some res" by simp
      from Cons.IH [OF this] obtain cmds2 where
        "scene (final res) = scene t1 @ cmds2" "\<forall>c \<in> set cmds2. \<not> is_marker c" by blast
      with c1 Inr have "scene (final res) = scene t @ (cmds1 @ cmds2) \<and>
          (\<forall>c \<in> set (cmds1 @ cmds2). \<not> is_marker c)" by auto
      then show ?thesis by blast
    qed
  qed
qed

lemma draw_for_chain:
  "draw_for self rs t = Some (Inr t') \<longleftrightarrow>
     (\<exists>ts. length ts = length rs + 1 \<and> ts ! 0 = t \<and>
           (\<forall>i < length rs. draw_while self (rs ! i) 0 (ts ! i) = Some (Inr (ts ! Suc i))) \<and>
           ts ! length rs = t')"
proof (induction rs arbitrary: t)
  case Nil
  show ?case
  proof
    assume "draw_for self [] t = Some (Inr t')"
    then have "t' = t" by simp
    then have "length [t] = length ([]::string list) + 1 \<and> [t] ! 0 = t \<and> [t] ! length ([]::string list) = t'"
      by simp
    then show "\<exists>ts. length ts = length ([]::string list) + 1 \<and> ts ! 0 = t \<and>
           (\<forall>i < length ([]::string list). draw_while self ([] ! i) 0 (ts ! i) = Some (Inr (ts ! Suc i))) \<and>
           ts ! length ([]::string list) = t'"
      by (intro exI [of _ "[t]"]) simp
  next
    assume "\<exists>ts. length ts = length ([]::string list) + 1 \<and> ts ! 0 = t \<and>
           (\<forall>i < length ([]::string list). draw_while self ([] ! i) 0 (ts ! i) = Some (Inr (ts ! Suc i))) \<and>
           ts ! length ([]::string list) = t'"
    then show "draw_for self [] t = Some (Inr t')" by auto
  qed
next
  case (Cons rule rest)
  show ?case
  proof
    assume run: "draw_for self (rule # rest) t = Some (Inr t')"
    then obtain t1 where first: "draw_while self rule 0 t = Some (Inr t1)"
      and others: "draw_for self rest t1 = Some (Inr t')"
      by (auto split: option.splits sum.splits)
    from others Cons.IH [of t1] obtain ts where ts:
      "length ts = length rest + 1" "ts ! 0 = t1"
      "\<forall>i < length rest. draw_while self (rest ! i) 0 (ts ! i) = Some (Inr (ts ! Suc i))"
      "ts ! length rest = t'" by blast
    have "\<forall>i < length (rule # rest).
            draw_while self ((rule # rest) ! i) 0 ((t # ts) ! i) = Some (Inr ((t # ts) ! Suc i))"
    proof (intro allI impI)
      fix i assume "i < length (rule # rest)"
      then show "draw_while self ((rule # rest) ! i) 0 ((t # ts) ! i) = Some (Inr ((t # ts) ! Suc i))"
        using first ts by (cases i) auto
    qed
    with ts show "\<exists>ts. length ts = length (rule # rest) + 1 \<and> ts ! 0 = t \<and>
           (\<forall>i < length (rule # rest).
              draw_while self ((rule # rest) ! i) 0 (ts ! i) = Some (Inr (ts ! Suc i))) \<and>
           ts ! length (rule # rest) = t'"
      by (intro exI [of _ "t # ts"]) simp
  next
    assume "\<exists>ts. length ts = length (rule # rest) + 1 \<and> ts ! 0 = t \<and>
           (\<forall>i < length (rule # rest).
              draw_while self ((rule # rest) ! i) 0 (ts ! i) = Some (Inr (ts ! Suc i))) \<and>
           ts ! length (rule # rest) = t'"
    then obtain ts where ts: "length ts = length (rule # rest) + 1" "ts ! 0 = t"
      "\<forall>i < length (rule # rest).
              draw_while self ((rule # rest) ! i) 0 (ts ! i) = Some (Inr (ts ! Suc i))"
      "ts ! length (rule # rest) = t'" by blast
    from ts(1) obtain u us where us: "ts = u # us" by (cases ts) auto
    with ts(2) have u: "u = t" by simp
    from ts(3) have "draw_while self ((rule # rest) ! 0) 0 (ts ! 0) = Some (Inr (ts ! Suc 0))"
      by blast
    with us u have first: "draw_while self rule 0 t = Some (Inr (us ! 0))" by simp
    have step: "\<forall>i < length rest. draw_while self (rest ! i) 0 (us ! i) = Some (Inr (us ! Suc i))"
    proof (intro allI impI)
      fix i assume "i < length rest"
      then have "Suc i < length (rule # rest)" by simp
      with ts(3) have "draw_while self ((rule # rest) ! Suc i) 0 (ts ! Suc i)
                         = Some (Inr (ts ! Suc (Suc i)))" by blast
      with us show "draw_while self (rest ! i) 0 (us ! i) = Some (Inr (us ! Suc i))" by simp
    qed
    have "length us = length rest + 1" "us ! length rest = t'" using ts(1,4) us by simp_all
    with step have "draw_for self rest (us ! 0) = Some (Inr t')"
      using Cons.IH [of "us ! 0"] by blast
    with first show "draw_for self (rule # rest) t = Some (Inr t')" by simp
  qed
qed

text \<open>
  Claim C5. \<open>draw\<close> puts the starting sphere at the origin into the scene before the
  first rule, and nothing it does later adds another one. It returns exactly when the
  rules of \<open>resultStrs\<close> (the generations \<open>0 .. numIters\<close>) can be interpreted one after
  the other, each from index 0 and from the state (location, direction, stack, random
  source, scene) in which the previous one ended, the first from the initial state.
\<close>

theorem cumulative_replay:
  "(\<forall>res. draw self r = Some res \<longrightarrow>
      (\<exists>cmds. scene (final res) = StartMarker (Vector 0 0 0) # cmds \<and>
              (\<forall>c \<in> set cmds. \<not> is_marker c))) \<and>
   (draw self r = Some (Inr t') \<longleftrightarrow>
      (\<exists>ts. length ts = length (resultStrs self) + 1 \<and>
            ts ! 0 = \<lparr>location = Vector 0 0 0, direction = Vector 0 1 0, stack = [], rand = r,
                      scene = [StartMarker (Vector 0 0 0)]\<rparr> \<and>
            (\<forall>i < length (resultStrs self).
               draw_while self (resultStrs self ! i) 0 (ts ! i) = Some (Inr (ts ! Suc i))) \<and>
            ts ! length (resultStrs self) = t')) \<and>
   (0 \<le> iters \<longrightarrow>
      resultStrs (fst (LSystem_init seeded entropy iters start rs step angle meshes seed))
        = generate rs iters start \<and>
      length (resultStrs (fst (LSystem_init seeded entropy iters start rs step angle meshes seed)))
        = nat iters + 1)"
proof -
  have start: "draw_start r = \<lparr>location = Vector 0 0 0, direction = Vector 0 1 0, stack = [],
      rand = r, scene = [StartMarker (Vector 0 0 0)]\<rparr>"
    by (simp add: draw_start_def Let_def)
  have marker: "\<exists>cmds. scene (final res) = StartMarker (Vector 0 0 0) # cmds \<and>
              (\<forall>c \<in> set cmds. \<not> is_marker c)" if "draw self r = Some res" for res
  proof -
    from that have "draw_for self (resultStrs self) (draw_start r) = Some res"
      by (simp add: draw_def)
    from draw_for_scene [OF this] show ?thesis by (simp add: start)
  qed
  have chain: "draw self r = Some (Inr t') \<longleftrightarrow>
      (\<exists>ts. length ts = length (resultStrs self) + 1 \<and>
            ts ! 0 = \<lparr>location = Vector 0 0 0, direction = Vector 0 1 0, stack = [], rand = r,
                      scene = [StartMarker (Vector 0 0 0)]\<rparr> \<and>
            (\<forall>i < length (resultStrs self).
               draw_while self (resultStrs self ! i) 0 (ts ! i) = Some (Inr (ts ! Suc i))) \<and>
            ts ! length (resultStrs self) = t')"
    unfolding draw_def start by (rule draw_for_chain)
  have gens: "resultStrs (fst (LSystem_init seeded entropy iters start rs step angle meshes seed))
        = generate rs iters start \<and>
      length (resultStrs (fst (LSystem_init seeded entropy iters start rs step angle meshes seed)))
        = nat iters + 1"
    by (simp add: LSystem_init_def generate_def generate_for_length)
  show ?thesis using marker chain gens by blast
qed

lemma two_generations_fields:
  "resultStrs two_generations = [''F'', ''Ff'']" "mesh_dict two_generations = Map.empty"
  "step_length two_generations = 1"
  by (simp_all add: two_generations_def LSystem_init_def generate_def eval_nat_numeral Let_def
        replaceProcess_def replace_def)

lemma two_generations_draw:
  "draw two_generations still = Some (Inr
       \<lparr>location = Vector 0 3 0, direction = Vector 0 1 0, stack = [], rand = still,
        scene = [StartMarker (Vector 0 0 0), LineSegment (Vector 0 0 0) (Vector 0 1 0),
                 LineSegment (Vector 0 1 0) (Vector 0 2 0)]\<rparr>)"
  by (simp add: draw_def draw_start_def two_generations_fields draw_while.simps parse_defs
        draw_instruction_def Let_def)

theorem cumulative_replay_witness:
  "(0::int) \<le> 1 \<and>
   resultStrs two_generations = [''F'', ''Ff''] \<and>
   draw two_generations still = Some (Inr
       \<lparr>location = Vector 0 3 0, direction = Vector 0 1 0, stack = [], rand = still,
        scene = [StartMarker (Vector 0 0 0), LineSegment (Vector 0 0 0) (Vector 0 1 0),
                 LineSegment (Vector 0 1 0) (Vector 0 2 0)]\<rparr>) \<and>
   (\<exists>ts. length ts = 3 \<and>
         draw_while two_generations ''F'' 0 (ts ! 0) = Some (Inr (ts ! 1)) \<and>
         draw_while two_generations ''Ff'' 0 (ts ! 1) = Some (Inr (ts ! 2)) \<and>
         location (ts ! 0) = Vector 0 0 0 \<and> location (ts ! 2) = Vector 0 3 0)"
proof -
  let ?t' = "\<lparr>location = Vector 0 3 0, direction = Vector 0 1 0, stack = [], rand = still,
        scene = [StartMarker (Vector 0 0 0), LineSegment (Vector 0 0 0) (Vector 0 1 0),
                 LineSegment (Vector 0 1 0) (Vector 0 2 0)]\<rparr>"
  from cumulative_replay [of two_generations still ?t'] two_generations_draw
  obtain ts where ts: "length ts = length (resultStrs two_generations) + 1"
    "ts ! 0 = \<lparr>location = Vector 0 0 0, direction = Vector 0 1 0, stack = [], rand = still,
                scene = [StartMarker (Vector 0 0 0)]\<rparr>"
    "\<forall>i < length (resultStrs two_generations).
        draw_while two_generations (resultStrs two_generations ! i) 0 (ts ! i)
          = Some (Inr (ts ! Suc i))"
    "ts ! length (resultStrs two_generations) = ?t'"
    by blast
  from ts(3) [rule_format, of 0] ts(3) [rule_format, of 1]
  have "draw_while two_generations ''F'' 0 (ts ! 0) = Some (Inr (ts ! 1))"
    "draw_while two_generations ''Ff'' 0 (ts ! 1) = Some (Inr (ts ! 2))"
    by (simp_all add: two_generations_fields eval_nat_numeral)
  moreover have "length ts = 3" "location (ts ! 0) = Vector 0 0 0" "location (ts ! 2) = Vector 0 3 0"
    using ts(1,2,4) by (simp_all add: two_generations_fields numeral_2_eq_2)
  ultimately show ?thesis using two_generations_draw two_generations_fields(1) by auto
qed

section \<open>The branch stack\<close>

lemma instructions_Nil:
  "instructions rule i = Some [] \<Longrightarrow> \<not> i < int (length rule)"
  by (subst (asm) instructions.simps) (auto split: if_splits prod.splits Option.bind_splits)

lemma instructions_Cons:
  "instructions rule i = Some (tok # rest) \<Longrightarrow>
     i < int (length rule) \<and>
     (\<exists>i'. next_instruction rule i = (tok, i') \<and> instructions rule (i' + 1) = Some rest)"
  by (subst (asm) instructions.simps) (auto split: if_splits prod.splits Option.bind_splits)

lemma instructions_draw_while:
  "instructions rule i = Some toks \<Longrightarrow>
     draw_while self rule i t = Some (draw_instructions self toks t)"
proof (induction toks arbitrary: i t)
  case Nil
  from instructions_Nil [OF Nil] show ?case
    by (subst draw_while.simps) simp
next
  case (Cons tok rest)
  from instructions_Cons [OF Cons.prems] obtain i' where
    i: "i < int (length rule)" "next_instruction rule i = (tok, i')"
       "instructions rule (i' + 1) = Some rest" by blast
  show ?case
    by (subst draw_while.simps)
       (simp add: i Cons.IH [OF i(3)] split: sum.splits prod.splits)
qed

lemma draw_instructions_append:
  "draw_instructions self (xs @ ys) t =
     (case draw_instructions self xs t of
        Inl err \<Rightarrow> Inl err
      | Inr t' \<Rightarrow> draw_instructions self ys t')"
  by (induction xs arbitrary: t) (auto split: sum.splits prod.splits)

lemma extract_value_ok:
  "value_ok tok \<Longrightarrow> \<exists>v r'. extract_value tok r = Inr ((instruction_symbol tok, v), r')"
  by (auto simp: value_ok_def extract_value_def instruction_symbol_def uniform_def
           split: option.splits prod.splits)

lemma draw_instruction_other:
  assumes "symbol \<noteq> ''[''" "symbol \<noteq> '']''"
  shows "\<exists>t'. draw_instruction self symbol value t = Inr t' \<and> stack t' = stack t"
  using assms
  by (simp add: draw_instruction_def add_mesh_instance_def Let_def split: prod.splits)

lemma draw_instruction_push:
  "''['' \<notin> dom (mesh_dict self) \<Longrightarrow>
     draw_instruction self ''['' value t = Inr (t\<lparr>stack := stack t @ [(location t, direction t)]\<rparr>)"
  by (simp add: draw_instruction_def)

lemma draw_instruction_pop:
  "'']'' \<notin> dom (mesh_dict self) \<Longrightarrow> stack t = s @ [(p, h)] \<Longrightarrow>
     draw_instruction self '']'' value t = Inr (t\<lparr>location := p, direction := h, stack := s\<rparr>)"
  by (simp add: draw_instruction_def)

lemma draw_instructions_prefix:
  assumes "''['' \<notin> dom (mesh_dict self)" "'']'' \<notin> dom (mesh_dict self)"
  shows "nesting d (map instruction_symbol (xs @ ys)) \<Longrightarrow> \<forall>tok \<in> set xs. value_ok tok \<Longrightarrow>
         stack t = base @ extra \<Longrightarrow> length extra = d \<Longrightarrow>
         \<exists>t' extra'. draw_instructions self xs t = Inr t' \<and> stack t' = base @ extra' \<and>
                     nesting (length extra') (map instruction_symbol ys)"
proof (induction xs arbitrary: d t extra)
  case Nil
  then show ?case by auto
next
  case (Cons tok rest)
  from Cons.prems(2) have ok: "value_ok tok" "\<forall>tok \<in> set rest. value_ok tok" by simp_all
  obtain v r' where ev: "extract_value tok (rand t) = Inr ((instruction_symbol tok, v), r')"
    using extract_value_ok [OF ok(1)] by blast
  let ?u = "t\<lparr>rand := r'\<rparr>"
  have su: "stack ?u = base @ extra" using Cons.prems(3) by simp
  consider (push) "instruction_symbol tok = ''[''" | (pop) "instruction_symbol tok = '']''"
    | (other) "instruction_symbol tok \<noteq> ''[''" "instruction_symbol tok \<noteq> '']''" by blast
  then show ?case
  proof cases
    case push
    let ?t1 = "?u\<lparr>stack := stack ?u @ [(location ?u, direction ?u)]\<rparr>"
    have step: "draw_instruction self (instruction_symbol tok) v ?u = Inr ?t1"
      using push draw_instruction_push [OF assms(1)] by simp
    have nest: "nesting (Suc d) (map instruction_symbol (rest @ ys))"
      using Cons.prems(1) push by simp
    have "stack ?t1 = base @ (extra @ [(location ?u, direction ?u)])" using su by simp
    moreover have "length (extra @ [(location ?u, direction ?u)]) = Suc d"
      using Cons.prems(4) by simp
    ultimately obtain t' extra' where
      "draw_instructions self rest ?t1 = Inr t'" "stack t' = base @ extra'"
      "nesting (length extra') (map instruction_symbol ys)"
      using Cons.IH [OF nest ok(2)] by blast
    then show ?thesis using ev step by auto
  next
    case pop
    from Cons.prems(1) pop have d: "0 < d" and nest: "nesting (d - 1) (map instruction_symbol (rest @ ys))"
      by simp_all
    from d Cons.prems(4) obtain e p h where extra: "extra = e @ [(p, h)]"
      by (cases extra rule: rev_cases) auto
    let ?t1 = "?u\<lparr>location := p, direction := h, stack := base @ e\<rparr>"
    have step: "draw_instruction self (instruction_symbol tok) v ?u = Inr ?t1"
      using pop draw_instruction_pop [OF assms(2), of ?u "base @ e" p h] su extra by simp
    have "stack ?t1 = base @ e" by simp
    moreover have "length e = d - 1" using extra Cons.prems(4) by auto
    ultimately obtain t' extra' where
      "draw_instructions self rest ?t1 = Inr t'" "stack t' = base @ extra'"
      "nesting (length extra') (map instruction_symbol ys)"
      using Cons.IH [OF nest ok(2)] by blast
    then show ?thesis using ev step by auto
  next
    case other
    obtain t1 where step: "draw_instruction self (instruction_symbol tok) v ?u = Inr t1"
      and st1: "stack t1 = stack ?u"
      using draw_instruction_other [OF other] by blast
    have nest: "nesting d (map instruction_symbol (rest @ ys))"
      using Cons.prems(1) other by simp
    have "stack t1 = base @ extra" using st1 su by simp
    then obtain t' extra' where
      "draw_instructions self rest t1 = Inr t'" "stack t' = base @ extra'"
      "nesting (length extra') (map instruction_symbol ys)"
      using Cons.IH [OF nest ok(2) _ Cons.prems(4)] by blast
    then show ?thesis using ev step by auto
  qed
qed

lemma draw_instructions_nested:
  assumes "''['' \<notin> dom (mesh_dict self)" "'']'' \<notin> dom (mesh_dict self)"
    and "nesting 0 (map instruction_symbol toks)" "\<forall>tok \<in> set toks. value_ok tok"
  shows "\<exists>t'. draw_instructions self toks t = Inr t' \<and> stack t' = stack t"
proof -
  have "nesting 0 (map instruction_symbol (toks @ []))" using assms(3) by simp
  from draw_instructions_prefix [OF assms(1,2) this assms(4), of t "stack t" "[]"]
  obtain t' extra' where r: "draw_instructions self toks t = Inr t'" "stack t' = stack t @ extra'"
    "nesting (length extra') (map instruction_symbol [])" by auto
  then have "extra' = []" by simp
  with r show ?thesis by simp
qed

lemma draw_instructions_branch:
  assumes "''['' \<notin> dom (mesh_dict self)" "'']'' \<notin> dom (mesh_dict self)"
    and "map instruction_symbol br = ''['' # body @ ['']'']" "nesting 0 body"
    and "\<forall>tok \<in> set br. value_ok tok"
  shows "\<exists>t'. draw_instructions self br t = Inr t' \<and> location t' = location t \<and>
              direction t' = direction t \<and> stack t' = stack t"
proof -
  from assms(3) obtain tk1 mid tk2 where br: "br = tk1 # mid @ [tk2]"
    and s1: "instruction_symbol tk1 = ''[''" and sm: "map instruction_symbol mid = body"
    and s2: "instruction_symbol tk2 = '']''"
    by (auto simp: map_eq_Cons_conv map_eq_append_conv)
  from assms(5) br have ok: "value_ok tk1" "\<forall>tok \<in> set mid. value_ok tok" "value_ok tk2"
    by simp_all
  obtain v1 r1 where ev1: "extract_value tk1 (rand t) = Inr ((''['', v1), r1)"
    using extract_value_ok [OF ok(1), of "rand t"] s1 by auto
  let ?u = "t\<lparr>rand := r1\<rparr>"
  let ?t1 = "?u\<lparr>stack := stack ?u @ [(location ?u, direction ?u)]\<rparr>"
  have step1: "draw_instruction self ''['' v1 ?u = Inr ?t1"
    by (rule draw_instruction_push [OF assms(1)])
  obtain t2 where run: "draw_instructions self mid ?t1 = Inr t2" and st2: "stack t2 = stack ?t1"
    using draw_instructions_nested [OF assms(1,2) _ ok(2), of ?t1] sm assms(4) by auto
  obtain v2 r2 where ev2: "extract_value tk2 (rand t2) = Inr (('']'', v2), r2)"
    using extract_value_ok [OF ok(3), of "rand t2"] s2 by auto
  let ?w = "t2\<lparr>rand := r2\<rparr>"
  have "stack ?w = stack t @ [(location t, direction t)]" using st2 by simp
  from draw_instruction_pop [OF assms(2) this]
  have step2: "draw_instruction self '']'' v2 ?w
                 = Inr (?w\<lparr>location := location t, direction := direction t, stack := stack t\<rparr>)" .
  have "draw_instructions self br t
          = Inr (?w\<lparr>location := location t, direction := direction t, stack := stack t\<rparr>)"
    using ev1 step1 run ev2 step2 by (simp add: br draw_instructions_append)
  then show ?thesis by simp
qed

lemma closed_parentheses_nth:
  "closed_parentheses rule \<Longrightarrow> j < length rule \<Longrightarrow> rule ! j = CHR ''('' \<Longrightarrow>
     CHR '')'' \<in> set (drop (Suc j) rule)"
proof (induction rule arbitrary: j)
  case Nil
  then show ?case by simp
next
  case (Cons c cs)
  show ?case
  proof (cases j)
    case 0
    with Cons.prems show ?thesis by simp
  next
    case (Suc k)
    with Cons.prems have "closed_parentheses cs" "k < length cs" "cs ! k = CHR ''(''"
      by (simp_all split: if_splits)
    from Cons.IH [OF this] Suc show ?thesis by simp
  qed
qed

lemma next_instruction_progress:
  assumes "closed_parentheses rule" "0 \<le> i" "i < int (length rule)"
  shows "i \<le> snd (next_instruction rule i)"
proof (cases "i + 2 < int (length rule) \<and> rule ! nat (i + 1) = CHR ''(''")
  case False
  then have "next_instruction rule i = ([rule ! nat i], i)"
    unfolding next_instruction_def by (rule if_not_P)
  then show ?thesis by simp
next
  case True
  have j: "nat (i + 1) < length rule" using True assms(2) by linarith
  from closed_parentheses_nth [OF assms(1) j] True
  have "CHR '')'' \<in> set (drop (Suc (nat (i + 1))) rule)" by simp
  moreover have "nat i \<le> Suc (nat (i + 1))" using assms(2) by linarith
  ultimately have "CHR '')'' \<in> set (drop (nat i) rule)"
    using set_drop_subset_set_drop [of "nat i" "Suc (nat (i + 1))" rule] by blast
  with True show ?thesis
    by (simp add: next_instruction_def py_find_def Let_def)
qed

lemma instructions_total:
  assumes "closed_parentheses rule"
  shows "0 \<le> i \<Longrightarrow> \<exists>toks. instructions rule i = Some toks"
proof (induction "nat (int (length rule) - i)" arbitrary: i rule: less_induct)
  case less
  show ?case
  proof (cases "i < int (length rule)")
    case False
    then have "instructions rule i = Some []"
      by (subst instructions.simps) simp
    then show ?thesis by blast
  next
    case True
    obtain tok i' where ni: "next_instruction rule i = (tok, i')"
      by (cases "next_instruction rule i")
    from next_instruction_progress [OF assms less.prems True] ni have ge: "i \<le> i'" by simp
    have "nat (int (length rule) - (i' + 1)) < nat (int (length rule) - i)"
      using ge True by linarith
    moreover have "0 \<le> i' + 1" using ge less.prems by linarith
    ultimately obtain rest where "instructions rule (i' + 1) = Some rest"
      using less.hyps by blast
    then have "instructions rule i = Some (tok # rest)"
      using True ni by (subst instructions.simps) simp
    then show ?thesis by blast
  qed
qed

lemma extract_value_Inl:
  "extract_value tok r = Inl e \<Longrightarrow> e = ValueError"
  by (auto simp: extract_value_def uniform_def split: option.splits prod.splits)

lemma extract_value_Inr:
  "extract_value tok r = Inr ((s, v), r') \<Longrightarrow> s = instruction_symbol tok"
  by (auto simp: extract_value_def instruction_symbol_def uniform_def split: option.splits prod.splits)

lemma draw_instructions_no_IndexError:
  assumes "''['' \<notin> dom (mesh_dict self)" "'']'' \<notin> dom (mesh_dict self)"
  shows "nesting d (map instruction_symbol toks) \<Longrightarrow> stack t = base @ extra \<Longrightarrow>
         length extra = d \<Longrightarrow> draw_instructions self toks t \<noteq> Inl (IndexError, t')"
proof (induction toks arbitrary: d t extra)
  case Nil
  then show ?case by simp
next
  case (Cons tok rest)
  show ?case
  proof (cases "extract_value tok (rand t)")
    case (Inl e)
    with extract_value_Inl [OF Inl] show ?thesis by simp
  next
    case (Inr x)
    obtain s v r' where x: "x = ((s, v), r')" by (cases x) auto
    with Inr have s: "s = instruction_symbol tok" using extract_value_Inr by blast
    have ev: "extract_value tok (rand t) = Inr ((instruction_symbol tok, v), r')"
      using Inr x s by simp
    let ?u = "t\<lparr>rand := r'\<rparr>"
    have su: "stack ?u = base @ extra" using Cons.prems(2) by simp
    consider (push) "instruction_symbol tok = ''[''" | (pop) "instruction_symbol tok = '']''"
      | (other) "instruction_symbol tok \<noteq> ''[''" "instruction_symbol tok \<noteq> '']''" by blast
    then show ?thesis
    proof cases
      case push
      let ?t1 = "?u\<lparr>stack := stack ?u @ [(location ?u, direction ?u)]\<rparr>"
      have step: "draw_instruction self (instruction_symbol tok) v ?u = Inr ?t1"
        using push draw_instruction_push [OF assms(1)] by simp
      have nest: "nesting (Suc d) (map instruction_symbol rest)"
        using Cons.prems(1) push by simp
      have "stack ?t1 = base @ (extra @ [(location ?u, direction ?u)])" using su by simp
      moreover have "length (extra @ [(location ?u, direction ?u)]) = Suc d"
        using Cons.prems(3) by simp
      ultimately have "draw_instructions self rest ?t1 \<noteq> Inl (IndexError, t')"
        using Cons.IH [OF nest] by blast
      then show ?thesis using ev step by simp
    next
      case pop
      from Cons.prems(1) pop have d: "0 < d" and nest: "nesting (d - 1) (map instruction_symbol rest)"
        by simp_all
      from d Cons.prems(3) obtain e p h where extra: "extra = e @ [(p, h)]"
        by (cases extra rule: rev_cases) auto
      let ?t1 = "?u\<lparr>location := p, direction := h, stack := base @ e\<rparr>"
      have step: "draw_instruction self (instruction_symbol tok) v ?u = Inr ?t1"
        using pop draw_instruction_pop [OF assms(2), of ?u "base @ e" p h] su extra by simp
      have "stack ?t1 = base @ e" by simp
      moreover have "length e = d - 1" using extra Cons.prems(3) by auto
      ultimately have "draw_instructions self rest ?t1 \<noteq> Inl (IndexError, t')"
        using Cons.IH [OF nest] by blast
      then show ?thesis using ev step by simp
    next
      case other
      obtain t1 where step: "draw_instruction self (instruction_symbol tok) v ?u = Inr t1"
        and st1: "stack t1 = stack ?u"
        using draw_instruction_other [OF other] by blast
      have nest: "nesting d (map instruction_symbol rest)"
        using Cons.prems(1) other by simp
      have "stack t1 = base @ extra" using st1 su by simp
      then have "draw_instructions self rest t1 \<noteq> Inl (IndexError, t')"
        using Cons.IH [OF nest _ Cons.prems(3)] by blast
      then show ?thesis using ev step by simp
    qed
  qed
qed

text \<open>
  Claim C4 says that every instruction sequence in which \<open>[\<close> and \<open>]\<close> are as many and
  validly nested is interpreted to the end without a pop from the empty stack. An opening
  bracket that carries a parameter list is such an instruction for the parser of the
  specification, but the regular expression of \<open>extract_value\<close> does not admit a bracket
  as the symbol: \<open>[(2)\<close> is returned whole, \<open>draw\<close> skips it without pushing, and the
  closing bracket of the rule \<open>[(2)]\<close> finds the stack empty.
\<close>

theorem parameterised_bracket_counterexample:
  "closed_parentheses ''[(2)]'' \<and>
   instructions ''[(2)]'' 0 = Some [''[(2)'', '']''] \<and>
   map spec_symbol [''[(2)'', '']''] = [''['', '']''] \<and>
   nesting 0 [''['', '']''] \<and>
   ''['' \<notin> dom (mesh_dict main_lsystem) \<and> '']'' \<notin> dom (mesh_dict main_lsystem) \<and>
   stack (draw_start still) = [] \<and>
   draw_while main_lsystem ''[(2)]'' 0 (draw_start still)
     = Some (Inl (IndexError, draw_start still))"
  by (simp add: instructions.simps draw_while.simps parse_defs spec_symbol_def main_lsystem_def
        draw_instruction_def rotate_direction_def rotations_def draw_start_def Let_def)

text \<open>
  Claim C4, amended. \<open>[\<close> appends the pair of location and direction to the stack and
  \<open>]\<close> takes the last pair off the stack into location and direction (for symbols that
  the mesh dictionary does not claim). For every rule in which each opening parenthesis is
  closed, the loop of \<open>draw\<close> cuts the rule into a finite sequence of instructions. When
  the symbols that \<open>extract_value\<close> returns for them (a bracket counts only when it
  carries no parameter list) have as many \<open>[\<close> as \<open>]\<close>, validly nested, the interpretation
  ends and never with the \<open>IndexError\<close> of a pop from the empty stack. When moreover
  \<open>float\<close> accepts all the numbers, it returns with the stack it started with (empty
  when it started empty); and for every part \<open>[ body ]\<close> of the sequence with a validly
  nested body, the instructions before it run to a state, and after the closing bracket
  location, direction and stack are those of that state.
\<close>

theorem branch_stack_discipline:
  "(''['' \<notin> dom (mesh_dict self) \<longrightarrow>
      draw_instruction self ''['' val t
        = Inr (t\<lparr>stack := stack t @ [(location t, direction t)]\<rparr>)) \<and>
   ('']'' \<notin> dom (mesh_dict self) \<and> stack t = s @ [(p, h)] \<longrightarrow>
      draw_instruction self '']'' val t
        = Inr (t\<lparr>location := p, direction := h, stack := s\<rparr>)) \<and>
   (''['' \<notin> dom (mesh_dict self) \<and> '']'' \<notin> dom (mesh_dict self) \<and> closed_parentheses rule \<longrightarrow>
      (\<exists>toks. instructions rule 0 = Some toks \<and>
         (nesting 0 (map instruction_symbol toks) \<longrightarrow>
            (\<exists>res. draw_while self rule 0 t = Some res \<and> (\<forall>t'. res \<noteq> Inl (IndexError, t'))) \<and>
            ((\<forall>tok \<in> set toks. value_ok tok) \<longrightarrow>
               (\<exists>t'. draw_while self rule 0 t = Some (Inr t') \<and>
                     draw_instructions self toks t = Inr t' \<and>
                     stack t' = stack t \<and> (stack t = [] \<longrightarrow> stack t' = [])) \<and>
               (\<forall>pre br post body.
                  toks = pre @ br @ post \<and> map instruction_symbol br = ''['' # body @ ['']''] \<and>
                  nesting 0 body \<longrightarrow>
                    (\<exists>t1 t2. draw_instructions self pre t = Inr t1 \<and>
                             draw_instructions self (pre @ br) t = Inr t2 \<and>
                             location t2 = location t1 \<and> direction t2 = direction t1 \<and>
                             stack t2 = stack t1))))))"
proof (intro conjI impI)
  assume "''['' \<notin> dom (mesh_dict self)"
  then show "draw_instruction self ''['' val t
        = Inr (t\<lparr>stack := stack t @ [(location t, direction t)]\<rparr>)"
    by (rule draw_instruction_push)
next
  assume "'']'' \<notin> dom (mesh_dict self) \<and> stack t = s @ [(p, h)]"
  then show "draw_instruction self '']'' val t
        = Inr (t\<lparr>location := p, direction := h, stack := s\<rparr>)"
    by (simp add: draw_instruction_pop)
next
  assume a: "''['' \<notin> dom (mesh_dict self) \<and> '']'' \<notin> dom (mesh_dict self) \<and> closed_parentheses rule"
  then have keys: "''['' \<notin> dom (mesh_dict self)" "'']'' \<notin> dom (mesh_dict self)"
    and closed: "closed_parentheses rule" by simp_all
  from instructions_total [OF closed, of 0] obtain toks where
    toks: "instructions rule 0 = Some toks" by auto
  have loop: "draw_while self rule 0 t = Some (draw_instructions self toks t)"
    using toks by (rule instructions_draw_while)
  have no_error: "\<exists>res. draw_while self rule 0 t = Some res \<and> (\<forall>t'. res \<noteq> Inl (IndexError, t'))"
    if "nesting 0 (map instruction_symbol toks)"
    using draw_instructions_no_IndexError [OF keys that, of t "stack t"] loop by simp
  have returns: "\<exists>t'. draw_while self rule 0 t = Some (Inr t') \<and>
      draw_instructions self toks t = Inr t' \<and> stack t' = stack t \<and>
      (stack t = [] \<longrightarrow> stack t' = [])"
    if "nesting 0 (map instruction_symbol toks)" "\<forall>tok \<in> set toks. value_ok tok"
  proof -
    from draw_instructions_nested [OF keys that, of t] obtain t' where
      "draw_instructions self toks t = Inr t'" "stack t' = stack t" by blast
    with loop show ?thesis by simp
  qed
  have branches: "\<exists>t1 t2. draw_instructions self pre t = Inr t1 \<and>
                    draw_instructions self (pre @ br) t = Inr t2 \<and>
                    location t2 = location t1 \<and> direction t2 = direction t1 \<and>
                    stack t2 = stack t1"
    if "nesting 0 (map instruction_symbol toks)" "\<forall>tok \<in> set toks. value_ok tok"
      and b: "toks = pre @ br @ post \<and> map instruction_symbol br = ''['' # body @ ['']''] \<and>
         nesting 0 body" for pre br post body
  proof -
    from that have nest: "nesting 0 (map instruction_symbol (pre @ (br @ post)))"
      and ok: "\<forall>tok \<in> set pre. value_ok tok" "\<forall>tok \<in> set br. value_ok tok"
      by auto
    from draw_instructions_prefix [OF keys nest ok(1), of t "stack t" "[]"]
    obtain t1 where t1: "draw_instructions self pre t = Inr t1" by auto
    from draw_instructions_branch [OF keys _ _ ok(2), of body t1] b
    obtain t2 where t2: "draw_instructions self br t1 = Inr t2" "location t2 = location t1"
      "direction t2 = direction t1" "stack t2 = stack t1" by blast
    from t1 t2(1) have "draw_instructions self (pre @ br) t = Inr t2"
      by (simp add: draw_instructions_append)
    with t1 t2 show ?thesis by blast
  qed
  show "\<exists>toks. instructions rule 0 = Some toks \<and>
         (nesting 0 (map instruction_symbol toks) \<longrightarrow>
            (\<exists>res. draw_while self rule 0 t = Some res \<and> (\<forall>t'. res \<noteq> Inl (IndexError, t'))) \<and>
            ((\<forall>tok \<in> set toks. value_ok tok) \<longrightarrow>
               (\<exists>t'. draw_while self rule 0 t = Some (Inr t') \<and>
                     draw_instructions self toks t = Inr t' \<and>
                     stack t' = stack t \<and> (stack t = [] \<longrightarrow> stack t' = [])) \<and>
               (\<forall>pre br post body.
                  toks = pre @ br @ post \<and> map instruction_symbol br = ''['' # body @ ['']''] \<and>
                  nesting 0 body \<longrightarrow>
                    (\<exists>t1 t2. draw_instructions self pre t = Inr t1 \<and>
                             draw_instructions self (pre @ br) t = Inr t2 \<and>
                             location t2 = location t1 \<and> direction t2 = direction t1 \<and>
                             stack t2 = stack t1))))"
  proof (intro exI [of _ toks] conjI impI allI)
    show "instructions rule 0 = Some toks" by (rule toks)
  next
    assume "nesting 0 (map instruction_symbol toks)"
    then show "\<exists>res. draw_while self rule 0 t = Some res \<and> (\<forall>t'. res \<noteq> Inl (IndexError, t'))"
      by (rule no_error)
  next
    assume "nesting 0 (map instruction_symbol toks)" "\<forall>tok \<in> set toks. value_ok tok"
    then show "\<exists>t'. draw_while self rule 0 t = Some (Inr t') \<and>
      draw_instructions self toks t = Inr t' \<and> stack t' = stack t \<and>
      (stack t = [] \<longrightarrow> stack t' = [])"
      by (rule returns)
  next
    fix pre br post body
    assume "nesting 0 (map instruction_symbol toks)" "\<forall>tok \<in> set toks. value_ok tok"
      "toks = pre @ br @ post \<and> map instruction_symbol br = ''['' # body @ ['']''] \<and>
         nesting 0 body"
    then show "\<exists>t1 t2. draw_instructions self pre t = Inr t1 \<and>
                    draw_instructions self (pre @ br) t = Inr t2 \<and>
                    location t2 = location t1 \<and> direction t2 = direction t1 \<and>
                    stack t2 = stack t1"
      by (rule branches)
  qed
qed


lemma value_ok_defs:
  "value_ok ''F''" "value_ok ''[''" "value_ok ''+''" "value_ok ''F(2)''" "value_ok '']''"
  by (simp_all add: value_ok_def parse_defs)

lemma instruction_symbol_defs:
  "instruction_symbol ''F'' = ''F''" "instruction_symbol ''['' = ''[''"
  "instruction_symbol ''+'' = ''+''" "instruction_symbol ''F(2)'' = ''F''"
  "instruction_symbol '']'' = '']''"
  by (simp_all add: instruction_symbol_def parse_defs)

lemma branch_instructions:
  "instructions ''F[+F(2)]F'' 0 = Some [''F'', ''['', ''+'', ''F(2)'', '']'', ''F'']"
  by (simp add: instructions.simps parse_defs)

theorem branch_stack_discipline_witness:
  "''['' \<notin> dom (mesh_dict main_lsystem) \<and> '']'' \<notin> dom (mesh_dict main_lsystem) \<and>
   closed_parentheses ''F[+F(2)]F'' \<and>
   instructions ''F[+F(2)]F'' 0 = Some [''F'', ''['', ''+'', ''F(2)'', '']'', ''F''] \<and>
   value_ok ''F'' \<and> value_ok ''['' \<and> value_ok ''+'' \<and> value_ok ''F(2)'' \<and> value_ok '']'' \<and>
   nesting 0 (map instruction_symbol [''F'', ''['', ''+'', ''F(2)'', '']'', ''F'']) \<and>
   map instruction_symbol [''['', ''+'', ''F(2)'', '']''] = ''['' # [''+'', ''F''] @ ['']''] \<and>
   nesting 0 [''+'', ''F''] \<and>
   (\<exists>res. draw_while main_lsystem ''F[+F(2)]F'' 0 (draw_start still) = Some res \<and>
          res \<noteq> Inl (IndexError, draw_start still)) \<and>
   (\<exists>t'. draw_while main_lsystem ''F[+F(2)]F'' 0 (draw_start still) = Some (Inr t') \<and>
         stack t' = []) \<and>
   (\<exists>t1 t2. draw_instructions main_lsystem [''F''] (draw_start still) = Inr t1 \<and>
            draw_instructions main_lsystem [''F'', ''['', ''+'', ''F(2)'', '']''] (draw_start still)
              = Inr t2 \<and>
            location t2 = location t1 \<and> direction t2 = direction t1 \<and> stack t2 = stack t1) \<and>
   draw_instruction main_lsystem ''['' None (draw_start still)
     = Inr ((draw_start still)\<lparr>stack := [(Vector 0 0 0, Vector 0 1 0)]\<rparr>) \<and>
   draw_instruction main_lsystem '']'' None
       ((draw_start still)\<lparr>stack := [(Vector 1 2 3, Vector 1 0 0)]\<rparr>)
     = Inr ((draw_start still)\<lparr>location := Vector 1 2 3, direction := Vector 1 0 0, stack := []\<rparr>)"
proof -
  let ?toks = "[''F'', ''['', ''+'', ''F(2)'', '']'', ''F'']"
  have k: "''['' \<notin> dom (mesh_dict main_lsystem)" "'']'' \<notin> dom (mesh_dict main_lsystem)"
    by (simp_all add: main_lsystem_def)
  have c: "closed_parentheses ''F[+F(2)]F''" by simp
  have ok: "\<forall>tok \<in> set ?toks. value_ok tok"
    by (simp add: value_ok_defs)
  have n: "nesting 0 (map instruction_symbol ?toks)"
    by (simp add: instruction_symbol_defs)
  have b: "map instruction_symbol [''['', ''+'', ''F(2)'', '']''] = ''['' # [''+'', ''F''] @ ['']'']"
    "nesting 0 [''+'', ''F'']"
    by (simp_all add: instruction_symbol_defs)
  have st: "stack (draw_start still) = []" by (simp add: draw_start_def Let_def)
  have hyp: "''['' \<notin> dom (mesh_dict main_lsystem) \<and> '']'' \<notin> dom (mesh_dict main_lsystem) \<and>
    closed_parentheses ''F[+F(2)]F''"
    using k c by (intro conjI)
  note inst = branch_stack_discipline [where self = main_lsystem and t = "draw_start still"
      and rule = "''F[+F(2)]F''" and val = None and s = "[]" and p = "Vector 0 0 0"
      and h = "Vector 0 1 0"]
  from inst [THEN conjunct2, THEN conjunct2, THEN mp, OF hyp] obtain toks where
    toks: "instructions ''F[+F(2)]F'' 0 = Some toks"
    and rest: "nesting 0 (map instruction_symbol toks) \<longrightarrow>
       (\<exists>res. draw_while main_lsystem ''F[+F(2)]F'' 0 (draw_start still) = Some res \<and>
              (\<forall>t'. res \<noteq> Inl (IndexError, t'))) \<and>
       ((\<forall>tok \<in> set toks. value_ok tok) \<longrightarrow>
          (\<exists>t'. draw_while main_lsystem ''F[+F(2)]F'' 0 (draw_start still) = Some (Inr t') \<and>
                draw_instructions main_lsystem toks (draw_start still) = Inr t' \<and>
                stack t' = stack (draw_start still) \<and>
                (stack (draw_start still) = [] \<longrightarrow> stack t' = [])) \<and>
          (\<forall>pre br post body.
             toks = pre @ br @ post \<and> map instruction_symbol br = ''['' # body @ ['']''] \<and>
             nesting 0 body \<longrightarrow>
               (\<exists>t1 t2. draw_instructions main_lsystem pre (draw_start still) = Inr t1 \<and>
                        draw_instructions main_lsystem (pre @ br) (draw_start still) = Inr t2 \<and>
                        location t2 = location t1 \<and> direction t2 = direction t1 \<and>
                        stack t2 = stack t1)))"
    by blast
  from toks branch_instructions have eq: "toks = ?toks" by simp
  note sequence = rest [unfolded eq, THEN mp, OF n]
  from sequence [THEN conjunct1] obtain res where
    "draw_while main_lsystem ''F[+F(2)]F'' 0 (draw_start still) = Some res"
    "\<forall>t'. res \<noteq> Inl (IndexError, t')" by blast
  then have noerr: "\<exists>res. draw_while main_lsystem ''F[+F(2)]F'' 0 (draw_start still) = Some res \<and>
          res \<noteq> Inl (IndexError, draw_start still)" by blast
  note returning = sequence [THEN conjunct2, THEN mp, OF ok]
  from returning [THEN conjunct1] obtain t' where
    "draw_while main_lsystem ''F[+F(2)]F'' 0 (draw_start still) = Some (Inr t')"
    "stack t' = stack (draw_start still)" by blast
  then have whole: "\<exists>t'. draw_while main_lsystem ''F[+F(2)]F'' 0 (draw_start still) = Some (Inr t') \<and>
         stack t' = []"
    using st by auto
  have split: "?toks = [''F''] @ [''['', ''+'', ''F(2)'', '']''] @ [''F''] \<and>
      map instruction_symbol [''['', ''+'', ''F(2)'', '']''] = ''['' # [''+'', ''F''] @ ['']''] \<and>
      nesting 0 [''+'', ''F'']"
    using b by simp
  from returning [THEN conjunct2, THEN spec, THEN spec, THEN spec, THEN spec, THEN mp, OF split]
  have part: "\<exists>t1 t2. draw_instructions main_lsystem [''F''] (draw_start still) = Inr t1 \<and>
            draw_instructions main_lsystem [''F'', ''['', ''+'', ''F(2)'', '']''] (draw_start still)
              = Inr t2 \<and>
            location t2 = location t1 \<and> direction t2 = direction t1 \<and> stack t2 = stack t1"
    by simp
  from inst [THEN conjunct1] k(1)
  have push: "draw_instruction main_lsystem ''['' None (draw_start still)
     = Inr ((draw_start still)\<lparr>stack := [(Vector 0 0 0, Vector 0 1 0)]\<rparr>)"
    by (simp add: draw_start_def Let_def)
  from branch_stack_discipline [of main_lsystem None
      "(draw_start still)\<lparr>stack := [(Vector 1 2 3, Vector 1 0 0)]\<rparr>" "[]" "Vector 1 2 3" "Vector 1 0 0"] k
  have pop: "draw_instruction main_lsystem '']'' None
       ((draw_start still)\<lparr>stack := [(Vector 1 2 3, Vector 1 0 0)]\<rparr>)
     = Inr ((draw_start still)\<lparr>location := Vector 1 2 3, direction := Vector 1 0 0, stack := []\<rparr>)"
    by simp
  show ?thesis
    using k c branch_instructions value_ok_defs n b noerr whole part push pop by (intro conjI)
qed

end
